theory Spec2Isabelle
  imports Main "HOL-Library.AList" "HOL-Library.Char_ord" "HOL-Library.List_Lexorder"
begin

section \<open>The ec2_instance module: data model\<close>

text \<open>
  The module under study is \<^verbatim>\<open>lib/ansible/modules/cloud/amazon/ec2_instance.py\<close>.
  Python exceptions and \<^verbatim>\<open>module.fail_json\<close> (which ends the module run) are values of
  the type \<open>error\<close>; a function that may raise returns \<open>error + 'a\<close>. The provider's
  client raises \<^verbatim>\<open>botocore.exceptions.ClientError\<close> (with its error code) or
  \<^verbatim>\<open>BotoCoreError\<close>: a \<open>boto_error\<close>, which is \<open>Uncaught\<close> where no handler of the
  module catches it.
\<close>

datatype boto_error = ClientError string | BotoCoreError

datatype error =
    FailJson string
  | KeyError string
  | TypeError string
  | AttributeError string
  | RuntimeError string
  | Uncaught boto_error

text \<open>
  A Python \<^verbatim>\<open>dict\<close> is an association list with distinct keys, in insertion order:
  \<^verbatim>\<open>d.get(k)\<close> is \<open>dict_get\<close>, \<^verbatim>\<open>d[k] = v\<close> is \<open>dict_setitem\<close> (an existing key keeps
  its place, a new key goes last), \<^verbatim>\<open>d.pop(k)\<close> is \<open>dict_pop\<close>, and
  \<^verbatim>\<open>dict(pairs)\<close> is \<open>dict_of_pairs\<close> (a later pair overrides an earlier one).
\<close>

type_synonym ('k, 'v) pydict = "('k \<times> 'v) list"

definition dict_get :: "('k, 'v) pydict \<Rightarrow> 'k \<Rightarrow> 'v option" where
  "dict_get d k = map_of d k"

definition dict_keys :: "('k, 'v) pydict \<Rightarrow> 'k list" where
  "dict_keys d = map fst d"

definition dict_setitem :: "('k, 'v) pydict \<Rightarrow> 'k \<Rightarrow> 'v \<Rightarrow> ('k, 'v) pydict" where
  "dict_setitem d k v = AList.update k v d"

definition dict_pop :: "('k, 'v) pydict \<Rightarrow> 'k \<Rightarrow> 'v option \<times> ('k, 'v) pydict" where
  "dict_pop d k = (map_of d k, AList.delete k d)"

definition dict_of_pairs :: "('k \<times> 'v) list \<Rightarrow> ('k, 'v) pydict" where
  "dict_of_pairs ps = foldl (\<lambda>d (k, v). dict_setitem d k v) [] ps"

text \<open>
  An instance as \<^verbatim>\<open>describe_instances\<close> returns it, with the fields the module reads:
  \<^verbatim>\<open>i['InstanceId']\<close>, \<^verbatim>\<open>i['State']['Name']\<close>, \<^verbatim>\<open>i['Tags']\<close> (the key is absent
  from the response when the instance has no tags: \<open>None\<close>), the
  \<^verbatim>\<open>NetworkInterfaceId\<close> of each entry of \<^verbatim>\<open>i['NetworkInterfaces']\<close>, and
  \<^verbatim>\<open>i['SourceDestCheck']\<close>.
\<close>

record ec2_instance =
  InstanceId :: string
  State_Name :: string
  Tags :: "(string \<times> string) list option"
  NetworkInterfaces :: "string list"
  SourceDestCheck :: bool

text \<open>
  The requests the module sends to the provider. Every model function below returns, next
  to its result, the list of requests it has issued, in order; a warning of the module
  (\<^verbatim>\<open>module.warn\<close>) is recorded in the same list.
\<close>

datatype query =
    ByInstanceIds "string list"
  | ByFilters "(string \<times> string list) list"

datatype request =
    CreateTags string "(string \<times> string) list"
  | DeleteTags string "(string \<times> string option) list"
  | AttachNetworkInterface nat string string
  | DescribeInstances query
  | DescribeInstanceAttribute string string
  | TerminateInstances "string list"
  | StopInstances "string list"
  | StartInstances "string list"
  | WaiterWait string "string list" nat int
  | ModuleWarn string

section \<open>Tag reconciliation: manage_tags\<close>

text \<open>
  Modelled from the spec: \<^verbatim>\<open>boto3_tag_list_to_ansible_dict\<close>,
  \<^verbatim>\<open>ansible_dict_to_boto3_tag_list\<close> and \<^verbatim>\<open>compare_aws_tags\<close> are imported from
  \<^verbatim>\<open>ansible.module_utils.ec2\<close>, which is not part of the sources at hand. The first turns
  the provider's list of key/value entries into a plain mapping, the second turns a mapping
  back into such a list, entry by entry. The third is the Tag Reconciler of the
  specification: \<open>toSet\<close> holds the entries of the desired tags whose key is absent from the
  observed tags or whose value differs, \<open>toDelete\<close> holds the observed keys absent from the
  desired tags when purge is requested, and nothing otherwise.
\<close>

definition boto3_tag_list_to_ansible_dict :: "(string \<times> string) list \<Rightarrow> (string, string) pydict" where
  "boto3_tag_list_to_ansible_dict tags_list = dict_of_pairs tags_list"

definition ansible_dict_to_boto3_tag_list :: "(string, 'v) pydict \<Rightarrow> (string \<times> 'v) list" where
  "ansible_dict_to_boto3_tag_list tags_dict = tags_dict"

definition compare_aws_tags ::
  "(string, string) pydict \<Rightarrow> (string, string) pydict \<Rightarrow> bool
     \<Rightarrow> (string, string) pydict \<times> string list" where
  "compare_aws_tags current_tags new_tags purge_tags =
     ([(k, v) \<leftarrow> new_tags. dict_get current_tags k \<noteq> Some v],
      (if purge_tags then [k \<leftarrow> dict_keys current_tags. dict_get new_tags k = None] else []))"

text \<open>
  The provider's answers to the two tag requests: \<open>None\<close> when the call returns, \<open>Some e\<close>
  when it raises \<open>e\<close>. The function is the body of \<^verbatim>\<open>manage_tags\<close>, one attempt of the
  retry decorator; \<open>cmp\<close> stands for \<^verbatim>\<open>compare_aws_tags\<close>.
\<close>

record tag_client =
  create_tags :: "string \<Rightarrow> (string \<times> string) list \<Rightarrow> boto_error option"
  delete_tags :: "string \<Rightarrow> (string \<times> string option) list \<Rightarrow> boto_error option"

definition manage_tags ::
  "((string, string) pydict \<Rightarrow> (string, string) pydict \<Rightarrow> bool
      \<Rightarrow> (string, string) pydict \<times> string list)
   \<Rightarrow> tag_client \<Rightarrow> ec2_instance \<Rightarrow> (string, string) pydict \<Rightarrow> bool
   \<Rightarrow> (error + bool) \<times> request list" where
  "manage_tags cmp ec2 match new_tags purge_tags =
     (case Tags match of
        None \<Rightarrow> (Inl (KeyError ''Tags''), [])
      | Some tag_list \<Rightarrow>
          let old_tags = boto3_tag_list_to_ansible_dict tag_list;
              tags_to_set = fst (cmp old_tags new_tags purge_tags);
              tags_to_delete = snd (cmp old_tags new_tags purge_tags);
              set_tags = ansible_dict_to_boto3_tag_list tags_to_set;
              set_req = (if tags_to_set \<noteq> [] then [CreateTags (InstanceId match) set_tags] else []);
              set_err = (if tags_to_set \<noteq> [] then create_tags ec2 (InstanceId match) set_tags else None);
              changed = (tags_to_set \<noteq> [])
          in case set_err of
               Some e \<Rightarrow> (Inl (Uncaught e), set_req)
             | None \<Rightarrow>
                 if tags_to_delete \<noteq> [] then
                   let delete_with_current_values =
                         dict_of_pairs (map (\<lambda>k. (k, dict_get old_tags k)) tags_to_delete);
                       del_tags = ansible_dict_to_boto3_tag_list delete_with_current_values
                   in case delete_tags ec2 (InstanceId match) del_tags of
                        Some e \<Rightarrow> (Inl (Uncaught e), set_req @ [DeleteTags (InstanceId match) del_tags])
                      | None \<Rightarrow> (Inr True, set_req @ [DeleteTags (InstanceId match) del_tags])
                 else (Inr changed, set_req))"

section \<open>Resource location: find_instances\<close>

text \<open>
  \<^verbatim>\<open>key.startswith("tag:")\<close> and \<^verbatim>\<open>key.replace("_", "-")\<close>.
\<close>

definition startswith :: "string \<Rightarrow> string \<Rightarrow> bool" where
  "startswith s p = (take (length p) s = p)"

definition replace_underscores :: "string \<Rightarrow> string" where
  "replace_underscores key = map (\<lambda>c. if c = CHR ''_'' then CHR ''-'' else c) key"

text \<open>
  The key that the loop below stores an entry under: a key with the prefix is left alone.
\<close>

definition normalized_key :: "string \<Rightarrow> string" where
  "normalized_key key = (if startswith key ''tag:'' then key else replace_underscores key)"

text \<open>
  The loop \<^verbatim>\<open>for key in filters.keys(): if not key.startswith("tag:"):
  filters[key.replace("_", "-")] = filters.pop(key)\<close> changes the dictionary it iterates
  over, and what that does depends on the interpreter. The module runs under Python 2 and
  under Python 3.

  Under Python 2 \<^verbatim>\<open>keys()\<close> is a list, made before the loop starts. The right-hand side
  of the assignment is evaluated first, so the entry is removed and then stored under the
  new key. Popping a key that is not there raises \<^verbatim>\<open>KeyError\<close>.
\<close>

type_synonym filters = "(string, string list) pydict"

fun snapshot_loop :: "string list \<Rightarrow> filters \<Rightarrow> error + filters" where
  "snapshot_loop [] filters = Inr filters"
| "snapshot_loop (key # keys) filters =
     (if \<not> startswith key ''tag:'' then
        (case dict_pop filters key of
           (None, _) \<Rightarrow> Inl (KeyError key)
         | (Some v, popped) \<Rightarrow>
             snapshot_loop keys (dict_setitem popped (replace_underscores key) v))
      else snapshot_loop keys filters)"

text \<open>
  Under Python 3 \<^verbatim>\<open>keys()\<close> is a view of the dictionary, and the iterator walks the
  dictionary's own array of entries, in which a removed entry leaves a gap and a new key is
  appended at the end. What the loop does then depends on that array, so the filter
  dictionary is modelled with it: the entries in insertion order (\<open>None\<close> for a gap) and
  the number of slots that the array has left. The items of the dictionary are its
  entries without the gaps.
\<close>

record filter_dict =
  dict_entries :: "(string \<times> string list) option list"
  dict_free :: nat

fun live_entries :: "'a option list \<Rightarrow> 'a list" where
  "live_entries [] = []"
| "live_entries (None # es) = live_entries es"
| "live_entries (Some e # es) = e # live_entries es"

definition dict_items :: "filter_dict \<Rightarrow> filters" where
  "dict_items d = live_entries (dict_entries d)"

text \<open>
  The first entry at or after a position, with its place, and the place of the entry with
  a given key.
\<close>

fun next_entry :: "nat \<Rightarrow> 'a option list \<Rightarrow> (nat \<times> 'a) option" where
  "next_entry pos [] = None"
| "next_entry pos (None # es) = map_option (\<lambda>(i, e). (Suc i, e)) (next_entry (pos - 1) es)"
| "next_entry pos (Some e # es) =
     (if pos = 0 then Some (0, e)
      else map_option (\<lambda>(i, e). (Suc i, e)) (next_entry (pos - 1) es))"

fun key_slot :: "'k \<Rightarrow> ('k \<times> 'v) option list \<Rightarrow> nat option" where
  "key_slot key [] = None"
| "key_slot key (None # es) = map_option Suc (key_slot key es)"
| "key_slot key (Some (k, v) # es) =
     (if k = key then Some 0 else map_option Suc (key_slot key es))"

text \<open>
  The loop under Python 3 (CPython 3.8 and later; earlier versions lack the second of the
  two checks below). The iterator remembers the number of items the dictionary had when
  the loop began, counts down the keys it may still hand out, and keeps its position in
  the array. Each step first compares the number of items with the remembered one and
  raises \<^verbatim>\<open>RuntimeError\<close> when they differ; it ends the loop when no entry is left at or
  after its position; and it raises \<^verbatim>\<open>RuntimeError\<close> when there is one but all keys
  have been handed out already. The body removes the entry of a key without the prefix
  and stores the value under the new key: in place when the dictionary has that key, else
  appended at the end of the array. When the array has no slot left, the interpreter
  first rebuilds it without the gaps; \<open>room n\<close> is the number of slots that a rebuilt
  array has left after it has taken over \<open>n\<close> entries.
\<close>

fun live_loop ::
  "(nat \<Rightarrow> nat) \<Rightarrow> nat \<Rightarrow> nat \<Rightarrow> nat \<Rightarrow> (string \<times> string list) option list \<Rightarrow> nat
     \<Rightarrow> error + filter_dict" where
  "live_loop room used 0 pos es slots =
     (if length (live_entries es) \<noteq> used
      then Inl (RuntimeError ''dictionary changed size during iteration'')
      else (case next_entry pos es of
              None \<Rightarrow> Inr \<lparr>dict_entries = es, dict_free = slots\<rparr>
            | Some (i, key, v) \<Rightarrow> Inl (RuntimeError ''dictionary keys changed during iteration'')))"
| "live_loop room used (Suc left) pos es slots =
     (if length (live_entries es) \<noteq> used
      then Inl (RuntimeError ''dictionary changed size during iteration'')
      else (case next_entry pos es of
              None \<Rightarrow> Inr \<lparr>dict_entries = es, dict_free = slots\<rparr>
            | Some (i, key, v) \<Rightarrow>
                if startswith key ''tag:'' then live_loop room used left (Suc i) es slots
                else
                  (let popped = es[i := None] in
                   case key_slot (replace_underscores key) popped of
                     Some j \<Rightarrow>
                       live_loop room used left (Suc i)
                         (popped[j := Some (replace_underscores key, v)]) slots
                   | None \<Rightarrow>
                       if slots = 0 then
                         live_loop room used left (Suc i)
                           (map Some (live_entries popped) @ [Some (replace_underscores key, v)])
                           (room (length (live_entries popped)) - 1)
                       else
                         live_loop room used left (Suc i)
                           (popped @ [Some (replace_underscores key, v)]) (slots - 1))))"

text \<open>
  The interpreter that runs the module, and the loop under either of them. Python 2 has
  its own dictionaries, of which the model keeps the items only, in the order in which
  \<^verbatim>\<open>keys()\<close> lists them.
\<close>

datatype interpreter = Python2 | Python3 "nat \<Rightarrow> nat"

fun normalize_filter_keys :: "interpreter \<Rightarrow> filter_dict \<Rightarrow> error + filter_dict" where
  "normalize_filter_keys Python2 d =
     (case snapshot_loop (dict_keys (dict_items d)) (dict_items d) of
        Inl e \<Rightarrow> Inl e
      | Inr items \<Rightarrow> Inr \<lparr>dict_entries = map Some items, dict_free = dict_free d\<rparr>)"
| "normalize_filter_keys (Python3 room) d =
     live_loop room (length (dict_items d)) (length (dict_items d)) 0 (dict_entries d) (dict_free d)"

text \<open>
  Modelled from the spec: \<^verbatim>\<open>ansible_dict_to_boto3_filter_list\<close> is imported from
  \<^verbatim>\<open>ansible.module_utils.ec2\<close>, which is not part of the sources at hand. A filter is a
  mapping from a filter key to the ordered list of accepted values; the helper lists its
  entries as the provider's name/values pairs.
\<close>

definition ansible_dict_to_boto3_filter_list :: "filter_dict \<Rightarrow> (string \<times> string list) list" where
  "ansible_dict_to_boto3_filter_list filters_dict = dict_items filters_dict"

text \<open>
  The provider's lifecycle interface, over a state \<open>'w\<close> of the provider's side that every
  mutating call may change: the paginated \<^verbatim>\<open>describe_instances\<close> (all pages, flattened
  by the search expression), the three lifecycle calls, which answer with the identifiers
  of the instances the provider reports as terminating, stopping or starting, and the
  waiter.
\<close>

datatype wait_result = WaitDone | WaiterError string | WaiterConfigError string

record 'w ec2_client =
  describe_instances :: "'w \<Rightarrow> query \<Rightarrow> boto_error + ec2_instance list"
  terminate_instances :: "'w \<Rightarrow> string list \<Rightarrow> (boto_error + string list) \<times> 'w"
  stop_instances :: "'w \<Rightarrow> string list \<Rightarrow> (boto_error + string list) \<times> 'w"
  start_instances :: "'w \<Rightarrow> string list \<Rightarrow> (boto_error + string list) \<times> 'w"
  waiter_wait :: "'w \<Rightarrow> string \<Rightarrow> string list \<Rightarrow> nat \<Rightarrow> int \<Rightarrow> wait_result \<times> 'w"

text \<open>
  \<^verbatim>\<open>find_instances(ec2, ids, filters)\<close> under the given interpreter: the result, the
  request sent, and the filter dictionary as the call leaves it (the loop changes the
  caller's dictionary in place). \<^verbatim>\<open>if ids\<close> holds for a non-empty list. When the
  loop raises, the exception is caught nowhere and ends the module, so the dictionary is
  not read again; the third component is then the dictionary as it was given.
\<close>

definition find_instances ::
  "interpreter \<Rightarrow> 'w ec2_client \<Rightarrow> 'w \<Rightarrow> string list option \<Rightarrow> filter_dict option
     \<Rightarrow> (error + ec2_instance list) \<times> request list \<times> filter_dict option" where
  "find_instances python ec2 w ids filters =
     (if ids \<noteq> None \<and> ids \<noteq> Some [] then
        (case describe_instances ec2 w (ByInstanceIds (the ids)) of
           Inl e \<Rightarrow> (Inl (Uncaught e), [DescribeInstances (ByInstanceIds (the ids))], filters)
         | Inr found \<Rightarrow> (Inr found, [DescribeInstances (ByInstanceIds (the ids))], filters))
      else (case filters of
        None \<Rightarrow> (Inl (FailJson ''No filters provided when they were required''), [], None)
      | Some fs \<Rightarrow>
          (case normalize_filter_keys python fs of
             Inl e \<Rightarrow> (Inl e, [], Some fs)
           | Inr normalized \<Rightarrow>
               let q = ByFilters (ansible_dict_to_boto3_filter_list normalized) in
               (case describe_instances ec2 w q of
                  Inl e \<Rightarrow> (Inl (Uncaught e), [DescribeInstances q], Some normalized)
                | Inr found \<Rightarrow> (Inr found, [DescribeInstances q], Some normalized)))))"

section \<open>State transitions: await_instances, change_instance_state, ensure_instance_state\<close>

text \<open>
  The parameters of the module that these functions read: \<^verbatim>\<open>wait\<close> and
  \<^verbatim>\<open>wait_timeout\<close>.
\<close>

record wait_params =
  wait :: bool
  wait_timeout :: int

definition state_opts :: "(string, string) pydict" where
  "state_opts =
     [(''OK'', ''instance_status_ok''),
      (''STOPPED'', ''instance_stopped''),
      (''TERMINATED'', ''instance_terminated''),
      (''EXISTS'', ''instance_exists''),
      (''RUNNING'', ''instance_running'')]"

definition join_ids :: "string list \<Rightarrow> string" where
  "join_ids ids = foldr (\<lambda>i acc. if acc = [] then i else i @ '', '' @ acc) ids []"

text \<open>
  \<^verbatim>\<open>await_instances(ids, state)\<close>: nothing when the user asked not to wait, a failure on
  an unknown state, else one waiter call with a delay of 15 seconds and
  \<^verbatim>\<open>wait_timeout // 15\<close> attempts. A waiter that gives up is a warning, a waiter
  with a wrong configuration is a failure.
\<close>

definition await_instances ::
  "'w ec2_client \<Rightarrow> wait_params \<Rightarrow> 'w \<Rightarrow> string list \<Rightarrow> string
     \<Rightarrow> error option \<times> request list \<times> 'w" where
  "await_instances ec2 params w ids state =
     (if \<not> wait params then (None, [], w)
      else (case dict_get state_opts state of
        None \<Rightarrow> (Some (FailJson (''Cannot wait for state '' @ state @ '', invalid state'')), [], w)
      | Some waiter \<Rightarrow>
          let req = WaiterWait waiter ids 15 (wait_timeout params div 15) in
          (case waiter_wait ec2 w waiter ids 15 (wait_timeout params div 15) of
             (WaitDone, w') \<Rightarrow> (None, [req], w')
           | (WaiterConfigError e, w') \<Rightarrow>
               (Some (FailJson (e @ ''. Error waiting for instances '' @ join_ids ids
                                  @ '' to reach state '' @ state)), [req], w')
           | (WaiterError e, w') \<Rightarrow>
               (None, [req, ModuleWarn (''Instances '' @ join_ids ids
                                  @ '' took too long to reach state '' @ state @ ''. '' @ e)], w'))))"

text \<open>
  A Python \<^verbatim>\<open>set\<close> of identifiers is a list without duplicates, in the order of first
  insertion; Python fixes no iteration order for a set, so only the elements of such a list
  carry meaning.
\<close>

definition set_add :: "'a \<Rightarrow> 'a list \<Rightarrow> 'a list" where
  "set_add x xs = (if x \<in> set xs then xs else xs @ [x])"

definition set_add_all :: "'a list \<Rightarrow> 'a list \<Rightarrow> 'a list" where
  "set_add_all new xs = foldl (\<lambda>acc x. set_add x acc) xs new"

text \<open>
  The loop of \<^verbatim>\<open>change_instance_state\<close> over the candidates, with the sets
  \<open>changed\<close> and \<open>unchanged\<close>, the provider's state and the requests sent so far. An
  exception of the provider inside the loop body is caught and dropped.
\<close>

record 'w change_acc =
  acc_changed :: "string list"
  acc_unchanged :: "string list"
  acc_world :: 'w
  acc_requests :: "request list"

definition lifecycle_call ::
  "('w \<Rightarrow> string list \<Rightarrow> (boto_error + string list) \<times> 'w) \<Rightarrow> request
     \<Rightarrow> string \<Rightarrow> 'w change_acc \<Rightarrow> 'w change_acc" where
  "lifecycle_call call req inst_id acc =
     (case call (acc_world acc) [inst_id] of
        (Inl e, w') \<Rightarrow> acc\<lparr>acc_world := w', acc_requests := acc_requests acc @ [req]\<rparr>
      | (Inr resp, w') \<Rightarrow>
          acc\<lparr>acc_changed := set_add_all resp (acc_changed acc),
              acc_world := w', acc_requests := acc_requests acc @ [req]\<rparr>)"

definition change_one :: "'w ec2_client \<Rightarrow> string \<Rightarrow> ec2_instance \<Rightarrow> 'w change_acc \<Rightarrow> 'w change_acc" where
  "change_one ec2 desired_state inst acc =
     (let acc1 = (if desired_state = ''TERMINATED''
                  then lifecycle_call (terminate_instances ec2)
                         (TerminateInstances [InstanceId inst]) (InstanceId inst) acc
                  else acc)
      in if desired_state = ''STOPPED'' then
           (if State_Name inst = ''stopping''
            then acc1\<lparr>acc_unchanged := set_add (InstanceId inst) (acc_unchanged acc1)\<rparr>
            else lifecycle_call (stop_instances ec2)
                   (StopInstances [InstanceId inst]) (InstanceId inst) acc1)
         else if desired_state = ''RUNNING''
           then lifecycle_call (start_instances ec2)
                  (StartInstances [InstanceId inst]) (InstanceId inst) acc1
           else acc1)"

fun change_loop :: "'w ec2_client \<Rightarrow> string \<Rightarrow> ec2_instance list \<Rightarrow> 'w change_acc \<Rightarrow> 'w change_acc" where
  "change_loop ec2 desired_state [] acc = acc"
| "change_loop ec2 desired_state (inst # insts) acc =
     change_loop ec2 desired_state insts (change_one ec2 desired_state inst acc)"

text \<open>
  The outcome of \<^verbatim>\<open>change_instance_state(filters, desired_state)\<close> (one attempt of the
  retry decorator): the triple it returns, or the error that ends it; the requests sent;
  the provider's state and the caller's filter dictionary afterwards.
\<close>

record 'w change_outcome =
  co_result :: "error + (string list \<times> string list \<times> ec2_instance list)"
  co_requests :: "request list"
  co_world :: 'w
  co_filters :: "filter_dict option"

definition change_instance_state ::
  "interpreter \<Rightarrow> 'w ec2_client \<Rightarrow> wait_params \<Rightarrow> 'w \<Rightarrow> filter_dict option \<Rightarrow> string
     \<Rightarrow> 'w change_outcome" where
  "change_instance_state python ec2 params w filters desired_state =
     (case find_instances python ec2 w None filters of
        (Inl e, reqs, filters') \<Rightarrow>
          \<lparr>co_result = Inl e, co_requests = reqs, co_world = w,
           co_filters = filters'\<rparr>
      | (Inr instances, reqs, filters') \<Rightarrow>
          let to_change = remdups (map InstanceId instances);
              acc = change_loop ec2 desired_state instances
                      \<lparr>acc_changed = [], acc_unchanged = [], acc_world = w, acc_requests = reqs\<rparr>;
              changed = acc_changed acc;
              unchanged = acc_unchanged acc;
              (await_err, await_reqs, w') =
                 (if changed \<noteq> []
                  then await_instances ec2 params (acc_world acc) (changed @ unchanged) desired_state
                  else (None, [], acc_world acc))
          in (case await_err of
                Some e \<Rightarrow>
                  \<lparr>co_result = Inl e,
                   co_requests = acc_requests acc @ await_reqs, co_world = w',
                   co_filters = filters'\<rparr>
              | None \<Rightarrow>
                  let change_failed = [i \<leftarrow> to_change. i \<notin> set changed] in
                  (case find_instances python ec2 w' (Some to_change) None of
                     (Inl e, reqs2, _) \<Rightarrow>
                       \<lparr>co_result = Inl e,
                        co_requests = acc_requests acc @ await_reqs @ reqs2, co_world = w',
                        co_filters = filters'\<rparr>
                   | (Inr instances2, reqs2, _) \<Rightarrow>
                       \<lparr>co_result = Inr (changed, change_failed, instances2),
                        co_requests = acc_requests acc @ await_reqs @ reqs2, co_world = w',
                        co_filters = filters'\<rparr>)))"

text \<open>
  \<^verbatim>\<open>pretty_instance(i)\<close> reads \<^verbatim>\<open>i['Tags']\<close>; the conversion of the other keys to
  snake case (\<^verbatim>\<open>camel_dict_to_snake_dict\<close>) renames fields only, so the pretty instance is
  the instance paired with its tags as a plain mapping.
\<close>

definition pretty_instance :: "ec2_instance \<Rightarrow> error + ec2_instance \<times> (string, string) pydict" where
  "pretty_instance i =
     (case Tags i of
        None \<Rightarrow> Inl (KeyError ''Tags'')
      | Some tag_list \<Rightarrow> Inr (i, boto3_tag_list_to_ansible_dict tag_list))"

fun pretty_instances :: "ec2_instance list \<Rightarrow> error + (ec2_instance \<times> (string, string) pydict) list" where
  "pretty_instances [] = Inr []"
| "pretty_instances (i # is) =
     (case pretty_instance i of
        Inl e \<Rightarrow> Inl e
      | Inr p \<Rightarrow> (case pretty_instances is of Inl e \<Rightarrow> Inl e | Inr ps \<Rightarrow> Inr (p # ps)))"

text \<open>
  How a run of \<^verbatim>\<open>ensure_instance_state\<close> ends: \<^verbatim>\<open>module.exit_json\<close> with the message,
  the name and value of the success list, \<^verbatim>\<open>changed\<close>, the name and value of the failure
  list and the instances; \<^verbatim>\<open>module.fail_json\<close> with the message and the two named lists;
  an error raised further down; or a plain return, for a state that no branch handles.
\<close>

datatype module_exit =
    ExitJson string "string \<times> string list" bool "string \<times> string list"
      "(ec2_instance \<times> (string, string) pydict) list"
  | FailJsonLists string "string \<times> string list" "string \<times> string list"
  | Raised error
  | Returned

definition report ::
  "string \<Rightarrow> string \<Rightarrow> string \<Rightarrow> string \<Rightarrow> string list \<Rightarrow> string list \<Rightarrow> ec2_instance list
     \<Rightarrow> module_exit" where
  "report fail_msg ok_msg success_key failed_key changed failed instances =
     (if failed \<noteq> [] then FailJsonLists fail_msg (success_key, changed) (failed_key, failed)
      else (case pretty_instances instances of
              Inl e \<Rightarrow> Raised e
            | Inr pretty \<Rightarrow>
                ExitJson ok_msg (success_key, changed) (changed \<noteq> []) (failed_key, []) pretty))"

text \<open>
  \<^verbatim>\<open>ensure_instance_state(state)\<close>, with \<open>filters\<close> the value of
  \<^verbatim>\<open>module.params.get('filters')\<close>. For a restart the triple of the stop call is bound to
  \<^verbatim>\<open>changed, failed, instances\<close> and the triple of the start call is bound to the same
  names; the start call receives the filter dictionary as the stop call left it. The
  result is the way the run ends together with all requests sent.
\<close>

definition ensure_instance_state ::
  "interpreter \<Rightarrow> 'w ec2_client \<Rightarrow> wait_params \<Rightarrow> 'w \<Rightarrow> filter_dict option \<Rightarrow> string
     \<Rightarrow> module_exit \<times> request list" where
  "ensure_instance_state python ec2 params w filters state =
     (if state \<in> set [''running'', ''started''] then
        (let run = change_instance_state python ec2 params w filters ''RUNNING'' in
         (case co_result run of
            Inl e \<Rightarrow> (Raised e, co_requests run)
          | Inr (changed, failed, instances) \<Rightarrow>
              (report ''Unable to start instances'' ''Instances started''
                 ''reboot_success'' ''reboot_failed'' changed failed instances, co_requests run)))
      else if state \<in> set [''restarted'', ''rebooted''] then
        (let stop_run = change_instance_state python ec2 params w filters ''STOPPED'' in
         (case co_result stop_run of
            Inl e \<Rightarrow> (Raised e, co_requests stop_run)
          | Inr (changed0, failed0, instances0) \<Rightarrow>
              (let run = change_instance_state python ec2 params (co_world stop_run)
                           (co_filters stop_run) ''RUNNING'' in
               (case co_result run of
                  Inl e \<Rightarrow> (Raised e, co_requests stop_run @ co_requests run)
                | Inr (changed, failed, instances) \<Rightarrow>
                    (report ''Unable to restart instances'' ''Instances restarted''
                       ''reboot_success'' ''reboot_failed'' changed failed instances,
                     co_requests stop_run @ co_requests run)))))
      else if state \<in> set [''stopped''] then
        (let run = change_instance_state python ec2 params w filters ''STOPPED'' in
         (case co_result run of
            Inl e \<Rightarrow> (Raised e, co_requests run)
          | Inr (changed, failed, instances) \<Rightarrow>
              (report ''Unable to stop instances'' ''Instances stopped''
                 ''stop_success'' ''stop_failed'' changed failed instances, co_requests run)))
      else if state \<in> set [''absent'', ''terminated''] then
        (let run = change_instance_state python ec2 params w filters ''TERMINATED'' in
         (case co_result run of
            Inl e \<Rightarrow> (Raised e, co_requests run)
          | Inr (terminated, terminate_failed, instances) \<Rightarrow>
              (report ''Unable to terminate instances'' ''Instances terminated''
                 ''terminate_success'' ''terminate_failed'' terminated terminate_failed instances,
               co_requests run)))
      else (Returned, []))"

section \<open>The desired configuration\<close>

text \<open>
  The entries of \<^verbatim>\<open>module.params\<close> that the modelled functions read. An option is \<open>None\<close>
  where Python has \<^verbatim>\<open>None\<close> or no such key. A value of a free-form dictionary
  (\<^verbatim>\<open>network\<close>) is a \<open>pyval\<close>, with Python's truth value. An entry of
  \<^verbatim>\<open>network.interfaces\<close> is a text (the identifier of an interface), a dictionary (with
  its \<^verbatim>\<open>id\<close> entry, if it has one) or some other value.
\<close>

datatype pyval = PyBool bool | PyInt int | PyText string

fun truthy :: "pyval \<Rightarrow> bool" where
  "truthy (PyBool b) = b"
| "truthy (PyInt n) = (n \<noteq> 0)"
| "truthy (PyText s) = (s \<noteq> [])"

datatype interface_entry = IfaceText string | IfaceDict "string option" | IfaceOther

record network_params =
  interfaces :: "interface_entry list option"
  source_dest_check :: "pyval option"
  net_ebs_optimized :: "bool option"

record image_params =
  image_dict_id :: "string option"
  ramdisk :: "string option"
  kernel :: "string option"

record launch_template_params =
  lt_id :: "string option"
  lt_name :: "string option"
  lt_version :: "string option"

record tower_conf =
  windows :: bool
  set_password :: "string option"
  tower_address :: "string option"
  job_template_id :: "string option"
  host_config_key :: "string option"

record module_params =
  image_id :: "string option"
  image_param :: "image_params option"
  launch_template :: "launch_template_params option"
  key_name :: "string option"
  user_data :: "string option"
  tower_callback :: "tower_conf option"
  detailed_monitoring :: "bool option"
  cpu_credit_specification :: "string option"
  tenancy :: "string option"
  network :: "network_params option"
  instance_initiated_shutdown_behavior :: "string option"
  termination_protection :: "bool option"
  ebs_optimized :: "bool option"
  instance_role :: "string option"
  instance_type :: string
  tags :: "(string, string) pydict option"
  name :: "string option"

text \<open>\<^verbatim>\<open>if s\<close> for an optional text: neither \<^verbatim>\<open>None\<close> nor empty.\<close>

definition nonempty :: "string option \<Rightarrow> bool" where
  "nonempty s = (s \<noteq> None \<and> s \<noteq> Some [])"

section \<open>Attribute diff: diff_instance_and_params\<close>

text \<open>
  One entry of the table \<^verbatim>\<open>param_mappings\<close>: the key of the parameter, the key of the
  instance attribute, the name of the attribute in the provider's request. A change to
  apply names the instance, the attribute key and the new value (wrapped as
  \<^verbatim>\<open>{'Value': v}\<close> in the source).
\<close>

record param_mapper =
  param_key :: string
  instance_key :: string
  attribute_name :: string

definition param_mappings :: "param_mapper list" where
  "param_mappings =
     [\<lparr>param_key = ''ebs_optimized'', instance_key = ''EbsOptimized'',
        attribute_name = ''ebsOptimized''\<rparr>,
      \<lparr>param_key = ''termination_protection'', instance_key = ''DisableApiTermination'',
        attribute_name = ''disableApiTermination''\<rparr>]"

datatype change_request = ChangeRequest string string bool

text \<open>\<^verbatim>\<open>params.get(mapping.param_key)\<close> for the keys of the table.\<close>

definition params_get_bool :: "module_params \<Rightarrow> string \<Rightarrow> bool option" where
  "params_get_bool params key =
     (if key = ''ebs_optimized'' then ebs_optimized params
      else if key = ''termination_protection'' then termination_protection params
      else None)"

text \<open>
  The loop over the table. \<open>describe_attr attribute_name instance_id\<close> is the value that
  \<^verbatim>\<open>describe_instance_attribute\<close> reports, or the error it raises.
\<close>

fun diff_mappings ::
  "(string \<Rightarrow> string \<Rightarrow> boto_error + bool) \<Rightarrow> string \<Rightarrow> module_params \<Rightarrow> string list
     \<Rightarrow> param_mapper list \<Rightarrow> change_request list \<Rightarrow> error + change_request list" where
  "diff_mappings describe_attr inst_id params skip [] changes_to_apply = Inr changes_to_apply"
| "diff_mappings describe_attr inst_id params skip (mapping # rest) changes_to_apply =
     (if params_get_bool params (param_key mapping) \<noteq> None \<and> instance_key mapping \<notin> set skip then
        (case describe_attr (attribute_name mapping) inst_id of
           Inl e \<Rightarrow> Inl (Uncaught e)
         | Inr v \<Rightarrow>
             if params_get_bool params (param_key mapping) \<noteq> None
                \<and> Some v \<noteq> params_get_bool params (param_key mapping)
             then diff_mappings describe_attr inst_id params skip rest
                    (changes_to_apply @
                       [ChangeRequest inst_id (instance_key mapping)
                          (the (params_get_bool params (param_key mapping)))])
             else diff_mappings describe_attr inst_id params skip rest changes_to_apply)
      else diff_mappings describe_attr inst_id params skip rest changes_to_apply)"

text \<open>
  \<^verbatim>\<open>diff_instance_and_params(instance, params, ec2, skip)\<close>; \<open>skip\<close> is \<open>None\<close> when the
  caller leaves it out. \<^verbatim>\<open>(params.get('network') or {})\<close> is the empty dictionary when
  there is no network block.
\<close>

definition network_source_dest_check :: "module_params \<Rightarrow> pyval option" where
  "network_source_dest_check params =
     (case network params of None \<Rightarrow> None | Some n \<Rightarrow> source_dest_check n)"

definition diff_instance_and_params ::
  "(string \<Rightarrow> string \<Rightarrow> boto_error + bool) \<Rightarrow> ec2_instance \<Rightarrow> module_params
     \<Rightarrow> string list option \<Rightarrow> error + change_request list" where
  "diff_instance_and_params describe_attr inst params skip_arg =
     (let skip = (case skip_arg of None \<Rightarrow> [] | Some s \<Rightarrow> s);
          inst_id = InstanceId inst
      in case diff_mappings describe_attr inst_id params skip param_mappings [] of
           Inl e \<Rightarrow> Inl e
         | Inr changes_to_apply \<Rightarrow>
             (case network_source_dest_check params of
                None \<Rightarrow> Inr changes_to_apply
              | Some v \<Rightarrow>
                  let check = truthy v in
                  if SourceDestCheck inst \<noteq> check
                  then Inr (changes_to_apply @ [ChangeRequest (InstanceId inst) ''SourceDestCheck'' check])
                  else Inr changes_to_apply))"

section \<open>Network attachments: change_network_attachments\<close>

text \<open>
  The identifiers collected from \<^verbatim>\<open>network.interfaces\<close>: the \<^verbatim>\<open>id\<close> of a dictionary
  that has one, a text as it is; any other entry is passed over.
\<close>

fun collect_new_ids :: "interface_entry list \<Rightarrow> string list" where
  "collect_new_ids [] = []"
| "collect_new_ids (IfaceDict (Some i) # rest) = i # collect_new_ids rest"
| "collect_new_ids (IfaceDict None # rest) = collect_new_ids rest"
| "collect_new_ids (IfaceText i # rest) = i # collect_new_ids rest"
| "collect_new_ids (IfaceOther # rest) = collect_new_ids rest"

text \<open>\<^verbatim>\<open>xs.index(x)\<close>: the first position of \<open>x\<close>, \<open>None\<close> for Python's \<^verbatim>\<open>ValueError\<close>.\<close>

fun list_index :: "'a list \<Rightarrow> 'a \<Rightarrow> nat option" where
  "list_index [] x = None"
| "list_index (y # ys) x =
     (if y = x then Some 0 else map_option Suc (list_index ys x))"

text \<open>\<^verbatim>\<open>set(new_ids) - set(old_ids)\<close>.\<close>

definition set_difference :: "'a list \<Rightarrow> 'a list \<Rightarrow> 'a list" where
  "set_difference new_ids old_ids = [i \<leftarrow> remdups new_ids. i \<notin> set old_ids]"

text \<open>
  The loop \<^verbatim>\<open>for eni_id in to_attach\<close>: one attach request each, until the provider
  raises. \<open>attach device_index instance_id eni_id\<close> is \<open>None\<close> when the call returns.
\<close>

fun attach_all ::
  "(nat \<Rightarrow> string \<Rightarrow> string \<Rightarrow> boto_error option) \<Rightarrow> string \<Rightarrow> string list \<Rightarrow> string list
     \<Rightarrow> error option \<times> request list" where
  "attach_all attach inst_id new_ids [] = (None, [])"
| "attach_all attach inst_id new_ids (eni_id # rest) =
     (case list_index new_ids eni_id of
        None \<Rightarrow> (Some (KeyError eni_id), [])
      | Some device_index \<Rightarrow>
          (case attach device_index inst_id eni_id of
             Some e \<Rightarrow> (Some (Uncaught e), [AttachNetworkInterface device_index inst_id eni_id])
           | None \<Rightarrow>
               (case attach_all attach inst_id new_ids rest of
                  (r, reqs) \<Rightarrow> (r, AttachNetworkInterface device_index inst_id eni_id # reqs))))"

definition network_interfaces_param :: "module_params \<Rightarrow> interface_entry list option" where
  "network_interfaces_param params =
     (case network params of None \<Rightarrow> None | Some n \<Rightarrow> interfaces n)"

definition change_network_attachments ::
  "(nat \<Rightarrow> string \<Rightarrow> string \<Rightarrow> boto_error option) \<Rightarrow> ec2_instance \<Rightarrow> module_params
     \<Rightarrow> (error + bool) \<times> request list" where
  "change_network_attachments attach inst params =
     (case network_interfaces_param params of
        None \<Rightarrow> (Inr False, [])
      | Some entries \<Rightarrow>
          let new_ids = collect_new_ids entries;
              old_ids = NetworkInterfaces inst;
              to_attach = set_difference new_ids old_ids
          in (case attach_all attach (InstanceId inst) new_ids to_attach of
                (Some e, reqs) \<Rightarrow> (Inl e, reqs)
              | (None, reqs) \<Rightarrow> (Inr (length to_attach \<noteq> 0), reqs)))"

section \<open>Default subnet: get_default_subnet\<close>

text \<open>
  A subnet of the provider's answer to \<^verbatim>\<open>describe_subnets\<close>. The function is given the
  list \<^verbatim>\<open>subnets.get('Subnets', [])\<close> of that answer, which the filters of the request
  restrict to the available default-for-AZ subnets of the VPC, and the requested
  availability zone, if any. Its result is \<open>None\<close> where Python returns \<^verbatim>\<open>None\<close>.
  \<^verbatim>\<open>sorted\<close> is stable, as \<open>sort_key\<close> is, and Python compares texts
  lexicographically by code point, as the order on \<open>string\<close> does.
\<close>

record subnet =
  SubnetId :: string
  AvailabilityZone :: string

definition get_default_subnet :: "subnet list \<Rightarrow> string option \<Rightarrow> subnet option" where
  "get_default_subnet subnets availability_zone =
     (if length subnets \<noteq> 0 then
        (let subs_by_az = dict_of_pairs (map (\<lambda>s. (AvailabilityZone s, s)) subnets);
             by_az = sort_key AvailabilityZone subnets
         in case availability_zone of
              None \<Rightarrow> Some (hd by_az)
            | Some az \<Rightarrow>
                (case dict_get subs_by_az az of
                   Some s \<Rightarrow> Some s
                 | None \<Rightarrow> Some (hd by_az)))
      else None)"

section \<open>Spec construction: build_top_level_options, build_run_instance_spec\<close>

text \<open>
  \<^verbatim>\<open>tower_callback_script(tower_conf, windows, passwd)\<close>. The three scripts are fixed
  templates; the model keeps which template is filled and with what. A missing field of the
  callback configuration fails the module.
\<close>

datatype user_data_script =
    RawUserData string
  | WindowsRemotingScript "string option"
  | TowerCallbackScript string string string

definition tower_callback_script :: "tower_conf \<Rightarrow> bool \<Rightarrow> string option \<Rightarrow> error + user_data_script" where
  "tower_callback_script conf is_windows passwd =
     (if is_windows \<and> passwd \<noteq> None then Inr (WindowsRemotingScript passwd)
      else if is_windows \<and> passwd = None then Inr (WindowsRemotingScript None)
      else (case tower_address conf of
        None \<Rightarrow> Inl (FailJson
          ''Incomplete tower_callback configuration. tower_callback.tower_address not set.'')
      | Some address \<Rightarrow>
          (case job_template_id conf of
             None \<Rightarrow> Inl (FailJson
               ''Incomplete tower_callback configuration. tower_callback.job_template_id not set.'')
           | Some template_id \<Rightarrow>
               (case host_config_key conf of
                  None \<Rightarrow> Inl (FailJson
                    ''Incomplete tower_callback configuration. tower_callback.host_config_key not set.'')
                | Some config_key \<Rightarrow> Inr (TowerCallbackScript address template_id config_key)))))"

text \<open>
  The dictionary that \<^verbatim>\<open>build_top_level_options\<close> returns: a field is \<open>None\<close> where the
  dictionary has no such key. \<^verbatim>\<open>to_native\<close> leaves a text as it is.
\<close>

record launch_template_spec =
  LaunchTemplateId :: "string option"
  LaunchTemplateName :: "string option"
  Version :: "string option"

record top_level_options =
  ImageId :: "string option"
  RamdiskId :: "string option"
  KernelId :: "string option"
  KeyName :: "string option"
  UserData :: "user_data_script option"
  LaunchTemplate :: "launch_template_spec option"
  Monitoring_Enabled :: "bool option"
  CreditSpecification_CpuCredits :: "string option"
  Placement_Tenancy :: "string option"
  EbsOptimized :: "bool option"
  InstanceInitiatedShutdownBehavior :: "string option"
  DisableApiTermination :: "bool option"

definition empty_options :: top_level_options where
  "empty_options =
     \<lparr>ImageId = None, RamdiskId = None, KernelId = None, KeyName = None, UserData = None,
      LaunchTemplate = None, Monitoring_Enabled = None, CreditSpecification_CpuCredits = None,
      Placement_Tenancy = None, EbsOptimized = None, InstanceInitiatedShutdownBehavior = None,
      DisableApiTermination = None\<rparr>"

text \<open>
  \<^verbatim>\<open>not params.get('launch_template')\<close>: no launch template, or an empty dictionary.
\<close>

definition launch_template_missing :: "module_params \<Rightarrow> bool" where
  "launch_template_missing params =
     (case launch_template params of
        None \<Rightarrow> True
      | Some lt \<Rightarrow> lt_id lt = None \<and> lt_name lt = None \<and> lt_version lt = None)"

definition image_options :: "module_params \<Rightarrow> top_level_options" where
  "image_options params =
     (if nonempty (image_id params) then empty_options\<lparr>ImageId := image_id params\<rparr>
      else (case image_param params of
              None \<Rightarrow> empty_options
            | Some img \<Rightarrow>
                empty_options\<lparr>ImageId := image_dict_id img, RamdiskId := ramdisk img,
                               KernelId := kernel img\<rparr>))"

definition user_data_options :: "module_params \<Rightarrow> top_level_options \<Rightarrow> error + top_level_options" where
  "user_data_options params spec =
     (case user_data params of
        Some text \<Rightarrow> Inr (spec\<lparr>UserData := Some (RawUserData text)\<rparr>)
      | None \<Rightarrow>
          (case tower_callback params of
             None \<Rightarrow> Inr spec
           | Some conf \<Rightarrow>
               (case tower_callback_script conf (windows conf) (set_password conf) of
                  Inl e \<Rightarrow> Inl e
                | Inr script \<Rightarrow> Inr (spec\<lparr>UserData := Some script\<rparr>))))"

text \<open>
  The launch template block. Its guard is the source's
  \<^verbatim>\<open>if not params.get('launch_template').get('id') or params.get('launch_template').get('name')\<close>,
  in which \<^verbatim>\<open>not\<close> binds tighter than \<^verbatim>\<open>or\<close>.
\<close>

definition launch_template_options ::
  "module_params \<Rightarrow> top_level_options \<Rightarrow> error + top_level_options" where
  "launch_template_options params spec =
     (case launch_template params of
        None \<Rightarrow> Inr spec
      | Some lt \<Rightarrow>
          if (\<not> nonempty (lt_id lt)) \<or> nonempty (lt_name lt) then
            Inl (FailJson (''Could not create instance with launch template. ''
              @ ''Either launch_template.name or launch_template.id parameters are required''))
          else Inr (spec\<lparr>LaunchTemplate :=
                 Some \<lparr>LaunchTemplateId = lt_id lt, LaunchTemplateName = lt_name lt,
                       Version = lt_version lt\<rparr>\<rparr>))"

definition network_ebs_optimized :: "module_params \<Rightarrow> bool option" where
  "network_ebs_optimized params =
     (case network params of None \<Rightarrow> None | Some n \<Rightarrow> net_ebs_optimized n)"

definition build_top_level_options :: "module_params \<Rightarrow> error + top_level_options" where
  "build_top_level_options params =
     (let spec = image_options params in
      if \<not> nonempty (ImageId spec) \<and> launch_template_missing params then
        Inl (FailJson (''You must include an image_id or image.id parameter to create an instance, ''
          @ ''or use a launch_template.''))
      else
        (let spec1 = spec\<lparr>KeyName := key_name params\<rparr> in
         case user_data_options params spec1 of
           Inl e \<Rightarrow> Inl e
         | Inr spec2 \<Rightarrow>
             (case launch_template_options params spec2 of
                Inl e \<Rightarrow> Inl e
              | Inr spec3 \<Rightarrow>
                  Inr (spec3\<lparr>
                    Monitoring_Enabled :=
                      (if detailed_monitoring params = Some True then Some True else None),
                    CreditSpecification_CpuCredits := cpu_credit_specification params,
                    Placement_Tenancy := tenancy params,
                    EbsOptimized := network_ebs_optimized params,
                    InstanceInitiatedShutdownBehavior :=
                      (if nonempty (instance_initiated_shutdown_behavior params)
                       then instance_initiated_shutdown_behavior params else None),
                    DisableApiTermination := termination_protection params\<rparr>))))"

text \<open>
  \<^verbatim>\<open>build_instance_tags(params)\<close>: the name goes into the tags under the key
  \<^verbatim>\<open>Name\<close>; the tags are listed once for the volumes and once for the instance. Without
  tags and without a name the tag helper is handed \<^verbatim>\<open>None\<close>, which has no items.
\<close>

definition build_instance_tags ::
  "module_params \<Rightarrow> error + (string \<times> (string \<times> string) list) list" where
  "build_instance_tags params =
     (let tags0 = tags params;
          tags1 = (case name params of
                     None \<Rightarrow> tags0
                   | Some n \<Rightarrow> Some (dict_setitem (case tags0 of None \<Rightarrow> [] | Some t \<Rightarrow> t) ''Name'' n))
      in case tags1 of
           None \<Rightarrow> Inl (AttributeError ''items'')
         | Some t \<Rightarrow>
             Inr [(''volume'', ansible_dict_to_boto3_tag_list t),
                  (''instance'', ansible_dict_to_boto3_tag_list t)])"

text \<open>
  The pattern \<^verbatim>\<open>^arn:aws:iam::\d+:instance-profile/[\w+=/,.@-]+$\<close> of
  \<^verbatim>\<open>determine_iam_role\<close>, over ASCII: the fixed prefix, one or more digits, the fixed
  middle, one or more characters of the class, and then the end of the text or a single
  newline before the end (what \<^verbatim>\<open>$\<close> accepts).
\<close>

definition is_digit :: "char \<Rightarrow> bool" where
  "is_digit c = (c \<in> set ''0123456789'')"

definition is_word_char :: "char \<Rightarrow> bool" where
  "is_word_char c =
     (c \<in> set ''abcdefghijklmnopqrstuvwxyzABCDEFGHIJKLMNOPQRSTUVWXYZ0123456789_'')"

definition is_profile_char :: "char \<Rightarrow> bool" where
  "is_profile_char c = (is_word_char c \<or> c \<in> set ''+=/,.@-'')"

fun strip_prefix :: "string \<Rightarrow> string \<Rightarrow> string option" where
  "strip_prefix [] s = Some s"
| "strip_prefix (p # ps) [] = None"
| "strip_prefix (p # ps) (c # cs) = (if p = c then strip_prefix ps cs else None)"

definition arn_match :: "string \<Rightarrow> bool" where
  "arn_match s =
     (case strip_prefix ''arn:aws:iam::'' s of
        None \<Rightarrow> False
      | Some r \<Rightarrow>
          takeWhile is_digit r \<noteq> [] \<and>
          (case strip_prefix '':instance-profile/'' (dropWhile is_digit r) of
             None \<Rightarrow> False
           | Some t \<Rightarrow>
               takeWhile is_profile_char t \<noteq> [] \<and>
               (dropWhile is_profile_char t = [] \<or> dropWhile is_profile_char t = [CHR 0x0A])))"

text \<open>
  \<^verbatim>\<open>def determine_iam_role(name_or_arn, iam)\<close>: both parameters are required. A value
  handed to it is \<^verbatim>\<open>None\<close>, a text or an IAM client; the client answers
  \<^verbatim>\<open>get_instance_profile\<close> with the ARN of the profile or raises. \<open>module_iam\<close> is the
  client that \<^verbatim>\<open>module.client('iam')\<close> gives.
\<close>

datatype pyarg = ArgNone | ArgText string | ArgClient "string \<Rightarrow> boto_error + string"

definition determine_iam_role ::
  "(string \<Rightarrow> boto_error + string) \<Rightarrow> pyarg \<Rightarrow> pyarg \<Rightarrow> error + string" where
  "determine_iam_role module_iam name_or_arn iam =
     (case name_or_arn of
        ArgText text \<Rightarrow>
          if arn_match text then Inr text
          else (case iam of
                  ArgText _ \<Rightarrow> Inl (AttributeError ''get_instance_profile'')
                | _ \<Rightarrow>
                    (case (case iam of ArgClient c \<Rightarrow> c | _ \<Rightarrow> module_iam) text of
                       Inr arn \<Rightarrow> Inr arn
                     | Inl (ClientError code) \<Rightarrow>
                         if code = ''NoSuchEntity''
                         then Inl (FailJson (''Could not find instance_role '' @ text))
                         else Inl (FailJson (''An error occurred while searching for instance_role ''
                                     @ text @ ''. Please try supplying the full ARN.''))
                     | Inl BotoCoreError \<Rightarrow> Inl (Uncaught BotoCoreError)))
      | _ \<Rightarrow> Inl (TypeError ''expected string or bytes-like object''))"

text \<open>
  A call \<^verbatim>\<open>determine_iam_role(...)\<close> with positional arguments: Python binds them to the
  two parameters and raises \<^verbatim>\<open>TypeError\<close> before the body runs when their number is not
  two.
\<close>

fun call_determine_iam_role :: "(string \<Rightarrow> boto_error + string) \<Rightarrow> pyarg list \<Rightarrow> error + string" where
  "call_determine_iam_role module_iam [name_or_arn, iam] =
     determine_iam_role module_iam name_or_arn iam"
| "call_determine_iam_role module_iam args =
     Inl (TypeError ''determine_iam_role() takes exactly 2 arguments'')"

text \<open>
  \<^verbatim>\<open>build_run_instance_spec(params, ec2)\<close>. The results of \<^verbatim>\<open>build_network_spec\<close>
  (which may fail) and \<^verbatim>\<open>build_volume_spec\<close> and the fresh token \<^verbatim>\<open>uuid.uuid4().hex\<close>
  are given. The role is resolved by the source's call
  \<^verbatim>\<open>determine_iam_role(params.get('iam_profile'))\<close>: one positional argument, the
  value of a key that the module's parameters do not have.
\<close>

record ('n, 'v) run_instance_spec =
  ClientToken :: string
  MaxCount :: nat
  MinCount :: nat
  spec_NetworkInterfaces :: 'n
  BlockDeviceMappings :: 'v
  top_level :: top_level_options
  TagSpecifications :: "(string \<times> (string \<times> string) list) list"
  IamInstanceProfile_Arn :: "string option"
  InstanceType :: string

definition build_run_instance_spec ::
  "(string \<Rightarrow> boto_error + string) \<Rightarrow> string \<Rightarrow> error + 'n \<Rightarrow> 'v \<Rightarrow> module_params
     \<Rightarrow> error + ('n, 'v) run_instance_spec" where
  "build_run_instance_spec module_iam token network_spec volume_spec params =
     (case network_spec of
        Inl e \<Rightarrow> Inl e
      | Inr interfaces_spec \<Rightarrow>
          (case build_top_level_options params of
             Inl e \<Rightarrow> Inl e
           | Inr options \<Rightarrow>
               (case build_instance_tags params of
                  Inl e \<Rightarrow> Inl e
                | Inr tag_specs \<Rightarrow>
                    (case (if nonempty (instance_role params)
                           then map_sum id Some (call_determine_iam_role module_iam [ArgNone])
                           else Inr None) of
                       Inl e \<Rightarrow> Inl e
                     | Inr arn \<Rightarrow>
                         Inr \<lparr>ClientToken = token, MaxCount = 1, MinCount = 1,
                              spec_NetworkInterfaces = interfaces_spec,
                              BlockDeviceMappings = volume_spec,
                              top_level = options,
                              TagSpecifications = tag_specs,
                              IamInstanceProfile_Arn = arn,
                              InstanceType = instance_type params\<rparr>))))"

section \<open>Sample configurations\<close>

text \<open>
  The parameters as the argument specification of \<^verbatim>\<open>main\<close> leaves them when the user
  sets nothing: the instance type defaults to \<^verbatim>\<open>t2.micro\<close>, waiting is on with a
  timeout of 600 seconds, every other entry read here is \<^verbatim>\<open>None\<close>.
\<close>

definition default_params :: module_params where
  "default_params =
     \<lparr>image_id = None, image_param = None, launch_template = None, key_name = None,
      user_data = None, tower_callback = None, detailed_monitoring = None,
      cpu_credit_specification = None, tenancy = None, network = None,
      instance_initiated_shutdown_behavior = None, termination_protection = None,
      ebs_optimized = None, instance_role = None, instance_type = ''t2.micro'',
      tags = None, name = None\<rparr>"

definition default_wait_params :: wait_params where
  "default_wait_params = \<lparr>wait = True, wait_timeout = 600\<rparr>"

text \<open>An instance with the given identifier and lifecycle state, without tags or interfaces.\<close>

definition plain_instance :: "string \<Rightarrow> string \<Rightarrow> ec2_instance" where
  "plain_instance inst_id state =
     \<lparr>InstanceId = inst_id, State_Name = state, Tags = Some [], NetworkInterfaces = [],
      SourceDestCheck = True\<rparr>"

text \<open>
  Two providers without a state of their own. Both answer every query with the given
  instances and let every waiter succeed. The first acknowledges every lifecycle call for
  the instances it names; the second does so too, except that it rejects every stop call.
\<close>

definition accepting_client :: "ec2_instance list \<Rightarrow> unit ec2_client" where
  "accepting_client found =
     \<lparr>describe_instances = (\<lambda>w q. Inr found),
      terminate_instances = (\<lambda>w ids. (Inr ids, w)),
      stop_instances = (\<lambda>w ids. (Inr ids, w)),
      start_instances = (\<lambda>w ids. (Inr ids, w)),
      waiter_wait = (\<lambda>w waiter ids delay attempts. (WaitDone, w))\<rparr>"

definition stop_rejecting_client :: "ec2_instance list \<Rightarrow> unit ec2_client" where
  "stop_rejecting_client found =
     (accepting_client found)
       \<lparr>stop_instances := (\<lambda>w ids. (Inl (ClientError ''IncorrectInstanceState''), w))\<rparr>"

text \<open>
  The filters that \<^verbatim>\<open>main\<close> builds when the user gives none, and filters by a tag as
  a user may give them.
\<close>

definition default_filters :: filters where
  "default_filters =
     [(''instance-state-name'', [''pending'', ''running'', ''stopping'', ''stopped''])]"

definition tag_filters :: filters where
  "tag_filters = [(''tag:Name'', [''web''])]"

text \<open>
  The filters that \<^verbatim>\<open>main\<close> builds for the state \<^verbatim>\<open>stopped\<close> when the user gives no
  filters and names the subnet with \<^verbatim>\<open>vpc_subnet_id\<close>.
\<close>

definition stopped_filters :: filters where
  "stopped_filters =
     [(''instance-state-name'', [''stopping'', ''pending'', ''running'']),
      (''subnet-id'', [''subnet-1''])]"

text \<open>
  A dictionary as it is when it has just been built from at most five items: no gaps, in
  an array of five slots. For the samples, an array that is rebuilt has five slots left.
\<close>

definition fresh_dict :: "filters \<Rightarrow> filter_dict" where
  "fresh_dict items = \<lparr>dict_entries = map Some items, dict_free = 5 - length items\<rparr>"

definition sample_room :: "nat \<Rightarrow> nat" where
  "sample_room used = 5"

section \<open>Properties of the tag reconciliation\<close>

text \<open>
  A dictionary built from the pairs \<open>(k, f k)\<close> holds exactly these pairs, whatever the
  order and the repetitions of the keys.
\<close>

lemma set_update_graph:
  "\<forall>p\<in>set d. snd p = f (fst p) \<Longrightarrow> set (AList.update k (f k) d) = insert (k, f k) (set d)"
  by (induction d) (auto split: if_splits)

lemma set_foldl_setitem_graph:
  "\<forall>p\<in>set d. snd p = f (fst p) \<Longrightarrow>
   set (foldl (\<lambda>d (k, v). dict_setitem d k v) d (map (\<lambda>k. (k, f k)) ks))
     = set d \<union> (\<lambda>k. (k, f k)) ` set ks"
proof (induction ks arbitrary: d)
  case Nil
  then show ?case by simp
next
  case (Cons k ks)
  have g: "\<forall>p\<in>set (AList.update k (f k) d). snd p = f (fst p)"
    using Cons.prems by (simp add: set_update_graph)
  show ?case
    using Cons.IH [OF g] Cons.prems by (simp add: dict_setitem_def set_update_graph)
qed

lemma set_dict_of_pairs_graph:
  "set (dict_of_pairs (map (\<lambda>k. (k, f k)) ks)) = (\<lambda>k. (k, f k)) ` set ks"
  using set_foldl_setitem_graph [of "[]" f ks] by (simp add: dict_of_pairs_def)

text \<open>
  Claim C10. In \<^verbatim>\<open>manage_tags\<close>, on an instance that carries tags: every deletion that
  is sent to the provider names this instance and consists of exactly the keys scheduled
  for deletion, each paired with the value the observed tags hold for it
  (\<^verbatim>\<open>old_tags.get(k)\<close>), never of bare keys; the deletion is sent whenever keys are
  scheduled and the preceding creation, if any, did not raise; and when nothing is to be
  set and nothing is to be deleted, no request is sent and the function returns
  \<^verbatim>\<open>False\<close>. This holds for every comparison function in the place of
  \<^verbatim>\<open>compare_aws_tags\<close>.
\<close>

theorem manage_tags_delete_with_current_values:
  assumes "Tags match = Some tag_list"
  shows "let old_tags = boto3_tag_list_to_ansible_dict tag_list;
             to_set = fst (cmp old_tags new_tags purge_tags);
             to_delete = snd (cmp old_tags new_tags purge_tags);
             run = manage_tags cmp ec2 match new_tags purge_tags
         in (\<forall>i tags. DeleteTags i tags \<in> set (snd run) \<longrightarrow>
               i = InstanceId match \<and> set tags = (\<lambda>k. (k, dict_get old_tags k)) ` set to_delete)
          \<and> (to_delete \<noteq> [] \<and> (to_set = [] \<or> create_tags ec2 (InstanceId match) to_set = None) \<longrightarrow>
               (\<exists>tags. DeleteTags (InstanceId match) tags \<in> set (snd run)))
          \<and> (to_set = [] \<and> to_delete = [] \<longrightarrow> run = (Inr False, []))"
  using assms
  by (auto simp: manage_tags_def Let_def ansible_dict_to_boto3_tag_list_def set_dict_of_pairs_graph
      split: option.splits if_splits)

theorem manage_tags_delete_with_current_values_witness:
  "Tags \<lparr>InstanceId = ''i-0abc'', State_Name = ''running'',
          Tags = Some [(''env'', ''dev''), (''old'', ''x'')],
          NetworkInterfaces = [], SourceDestCheck = True\<rparr>
     = Some [(''env'', ''dev''), (''old'', ''x'')]
   \<and> (\<exists>tags. DeleteTags ''i-0abc'' tags
          \<in> set (snd (manage_tags compare_aws_tags
                        \<lparr>create_tags = \<lambda>_ _. None, delete_tags = \<lambda>_ _. None\<rparr>
                        \<lparr>InstanceId = ''i-0abc'', State_Name = ''running'',
                          Tags = Some [(''env'', ''dev''), (''old'', ''x'')],
                          NetworkInterfaces = [], SourceDestCheck = True\<rparr>
                        [(''env'', ''prod'')] True))
        \<and> set tags = {(''old'', Some ''x'')})"
proof -
  let ?tl = "[(''env'', ''dev''), (''old'', ''x'')]"
  let ?m = "\<lparr>InstanceId = ''i-0abc'', State_Name = ''running'', Tags = Some ?tl,
             NetworkInterfaces = [], SourceDestCheck = True\<rparr>"
  let ?ec2 = "\<lparr>create_tags = \<lambda>_ _. None, delete_tags = \<lambda>_ _. None\<rparr>"
  have h: "Tags ?m = Some ?tl" by simp
  have old: "boto3_tag_list_to_ansible_dict ?tl = ?tl"
    by (simp add: boto3_tag_list_to_ansible_dict_def dict_of_pairs_def dict_setitem_def)
  have c: "compare_aws_tags ?tl [(''env'', ''prod'')] True = ([(''env'', ''prod'')], [''old''])"
    by (simp add: compare_aws_tags_def dict_get_def dict_keys_def)
  note T = manage_tags_delete_with_current_values
             [OF h, of compare_aws_tags "[(''env'', ''prod'')]" True ?ec2]
  from T obtain tags where
    t: "DeleteTags ''i-0abc'' tags \<in> set (snd (manage_tags compare_aws_tags ?ec2 ?m [(''env'', ''prod'')] True))"
    by (auto simp: Let_def old c)
  with T have "set tags = {(''old'', Some ''x'')}"
    by (auto simp: Let_def old c dict_get_def)
  with t h show ?thesis by blast
qed

section \<open>Properties of the spec construction\<close>

text \<open>
  Claim C3, at the failing input. An image and a launch template that is referred to by
  its name alone: the construction fails, and the message of the failure itself says that
  either the name or the identifier is required.
\<close>

theorem build_top_level_options_name_only_fails:
  "build_top_level_options
     (default_params\<lparr>image_id := Some ''ami-0123'',
        launch_template :=
          Some \<lparr>lt_id = None, lt_name = Some ''web-template'', lt_version = None\<rparr>\<rparr>)
   = Inl (FailJson (''Could not create instance with launch template. ''
        @ ''Either launch_template.name or launch_template.id parameters are required''))"
  by code_simp

text \<open>
  With the identifier alone the construction succeeds and hands the version on as it is;
  with the identifier and the name together it fails as well.
\<close>

lemma build_top_level_options_id_only:
  "build_top_level_options
     (default_params\<lparr>image_id := Some ''ami-0123'',
        launch_template :=
          Some \<lparr>lt_id = Some ''lt-0abc'', lt_name = None, lt_version = Some ''3''\<rparr>\<rparr>)
   = Inr (empty_options\<lparr>ImageId := Some ''ami-0123'',
        LaunchTemplate := Some \<lparr>LaunchTemplateId = Some ''lt-0abc'',
          LaunchTemplateName = None, Version = Some ''3''\<rparr>\<rparr>)"
  by code_simp

lemma build_top_level_options_id_and_name:
  "build_top_level_options
     (default_params\<lparr>image_id := Some ''ami-0123'',
        launch_template :=
          Some \<lparr>lt_id = Some ''lt-0abc'', lt_name = Some ''web-template'',
                lt_version = None\<rparr>\<rparr>)
   = Inl (FailJson (''Could not create instance with launch template. ''
        @ ''Either launch_template.name or launch_template.id parameters are required''))"
  by code_simp

text \<open>
  The function that resolves a role, called with both of its arguments, does what is
  expected of it: a text that matches the pattern is returned as it is, a bare name is
  looked up, and a lookup that finds no such entity fails the module.
\<close>

lemma determine_iam_role_arn_verbatim:
  "arn_match text \<Longrightarrow> determine_iam_role module_iam (ArgText text) iam = Inr text"
  by (simp add: determine_iam_role_def)

lemma determine_iam_role_lookup:
  "\<not> arn_match text \<Longrightarrow> module_iam text = Inr arn \<Longrightarrow>
   determine_iam_role module_iam (ArgText text) ArgNone = Inr arn"
  by (simp add: determine_iam_role_def)

lemma determine_iam_role_no_such_entity:
  "\<not> arn_match text \<Longrightarrow> module_iam text = Inl (ClientError ''NoSuchEntity'') \<Longrightarrow>
   determine_iam_role module_iam (ArgText text) ArgNone
     = Inl (FailJson (''Could not find instance_role '' @ text))"
  by (simp add: determine_iam_role_def)

text \<open>
  Claim C4, at the failing input. The desired configuration names an instance role by a
  full ARN that matches the pattern; network, volumes, image and tags are in order. The
  construction does not return a spec that carries the ARN: the call that should resolve
  the role hands over one argument where two are required, and the run ends with a
  \<^verbatim>\<open>TypeError\<close>.
\<close>

theorem build_run_instance_spec_role_raises:
  "build_run_instance_spec
     (\<lambda>profile. Inr (''arn:aws:iam::123456789012:instance-profile/'' @ profile))
     ''0f8fad5bd9cb469fa16570867728950e'' (Inr ()) ()
     (default_params\<lparr>image_id := Some ''ami-0123'', name := Some ''web'',
        instance_role := Some ''arn:aws:iam::123456789012:instance-profile/app''\<rparr>)
   = Inl (TypeError ''determine_iam_role() takes exactly 2 arguments'')"
  by code_simp

section \<open>Properties of the default subnet\<close>

text \<open>
  A dictionary built from a list of pairs looks a key up as the reversed list does: the
  last pair with a key wins.
\<close>

lemma map_of_foldl_setitem:
  "map_of (foldl (\<lambda>d (k, v). dict_setitem d k v) d ps) = map_of d ++ map_of (rev ps)"
proof (induction ps arbitrary: d)
  case Nil
  then show ?case by simp
next
  case (Cons p ps)
  obtain k v where p: "p = (k, v)" by (cases p)
  have "foldl (\<lambda>d (k, v). dict_setitem d k v) d (p # ps)
      = foldl (\<lambda>d (k, v). dict_setitem d k v) (dict_setitem d k v) ps"
    unfolding p by simp
  then have "map_of (foldl (\<lambda>d (k, v). dict_setitem d k v) d (p # ps))
      = map_of (dict_setitem d k v) ++ map_of (rev ps)"
    by (simp only: Cons.IH)
  also have "\<dots> = map_of (AList.update k v d) ++ map_of (rev ps)"
    by (simp only: dict_setitem_def)
  also have "\<dots> = (map_of d ++ [k \<mapsto> v]) ++ map_of (rev ps)"
    by (simp add: update_conv')
  also have "\<dots> = map_of d ++ map_of (rev (p # ps))"
    unfolding p by (simp add: map_add_assoc)
  finally show ?case .
qed

lemma dict_get_dict_of_pairs: "dict_get (dict_of_pairs ps) k = map_of (rev ps) k"
  by (simp add: dict_get_def dict_of_pairs_def map_of_foldl_setitem)

lemma dict_get_by_key_Some:
  "dict_get (dict_of_pairs (map (\<lambda>s. (f s, s)) xs)) k = Some s \<Longrightarrow> s \<in> set xs \<and> f s = k"
  by (auto simp: dict_get_dict_of_pairs rev_map [symmetric] dest!: map_of_SomeD)

lemma dict_get_by_key_None:
  "dict_get (dict_of_pairs (map (\<lambda>s. (f s, s)) xs)) k = None \<Longrightarrow> k \<notin> f ` set xs"
proof
  assume n: "dict_get (dict_of_pairs (map (\<lambda>s. (f s, s)) xs)) k = None" and "k \<in> f ` set xs"
  then have "k \<in> fst ` set (rev (map (\<lambda>s. (f s, s)) xs))" by force
  then have "k \<in> dom (map_of (rev (map (\<lambda>s. (f s, s)) xs)))"
    by (simp only: dom_map_of_conv_image_fst)
  with n show False by (auto simp: dict_get_dict_of_pairs)
qed

text \<open>The first element of the list sorted by a key is an element with a least key.\<close>

lemma hd_sort_key_least:
  assumes "xs \<noteq> []"
  shows "hd (sort_key f xs) \<in> set xs \<and> (\<forall>t\<in>set xs. f (hd (sort_key f xs)) \<le> f t)"
proof -
  from assms have "sort_key f xs \<noteq> []" by (metis length_0_conv length_sort)
  then obtain y ys where y: "sort_key f xs = y # ys" by (cases "sort_key f xs") auto
  have "sorted (map f (sort_key f xs))" by (rule sorted_sort_key)
  with y have "\<forall>t\<in>set (y # ys). f y \<le> f t" by auto
  moreover have "set (y # ys) = set xs" using y by (metis set_sort)
  ultimately show ?thesis using y by auto
qed

text \<open>
  Claim C6. For a non-empty list of default subnets the function returns one of them, and
  which one is fixed by the list and the request: when an availability zone is requested
  and a subnet of the list lies in it, a subnet of that zone; in every other case a subnet
  whose zone name is least in the lexicographic order of texts. When no two subnets share
  a zone, this determines the subnet.
\<close>

theorem get_default_subnet_deterministic:
  assumes "subnets \<noteq> []"
  shows "\<exists>s. get_default_subnet subnets availability_zone = Some s \<and> s \<in> set subnets
           \<and> (if availability_zone \<noteq> None
                  \<and> the availability_zone \<in> AvailabilityZone ` set subnets
               then AvailabilityZone s = the availability_zone
               else \<forall>t\<in>set subnets. AvailabilityZone s \<le> AvailabilityZone t)
           \<and> (inj_on AvailabilityZone (set subnets) \<longrightarrow>
                (\<forall>t\<in>set subnets. AvailabilityZone t = AvailabilityZone s \<longrightarrow> t = s))"
proof -
  let ?d = "dict_of_pairs (map (\<lambda>s. (AvailabilityZone s, s)) subnets)"
  let ?h = "hd (sort_key AvailabilityZone subnets)"
  note least = hd_sort_key_least [OF assms, of AvailabilityZone]
  have inj: "inj_on AvailabilityZone (set subnets) \<longrightarrow>
        (\<forall>t\<in>set subnets. AvailabilityZone t = AvailabilityZone s \<longrightarrow> t = s)"
    if "s \<in> set subnets" for s
    using that by (auto dest: inj_onD)
  show ?thesis
  proof (cases availability_zone)
    case None
    with assms have "get_default_subnet subnets availability_zone = Some ?h"
      by (simp add: get_default_subnet_def)
    with None least inj [of ?h] show ?thesis by auto
  next
    case (Some az)
    show ?thesis
    proof (cases "dict_get ?d az")
      case None
      with Some assms have r: "get_default_subnet subnets availability_zone = Some ?h"
        by (simp add: get_default_subnet_def Let_def)
      from None have "az \<notin> AvailabilityZone ` set subnets" by (rule dict_get_by_key_None)
      with r Some least inj [of ?h] show ?thesis by auto
    next
      case found: (Some s)
      with Some assms have r: "get_default_subnet subnets availability_zone = Some s"
        by (simp add: get_default_subnet_def Let_def)
      from found have s: "s \<in> set subnets \<and> AvailabilityZone s = az"
        by (rule dict_get_by_key_Some)
      with r Some inj [of s] show ?thesis by auto
    qed
  qed
qed

text \<open>
  Two default subnets, listed with the zone \<^verbatim>\<open>us-east-1b\<close> first: without a requested
  zone, and with a requested zone that has no default subnet, the subnet of
  \<^verbatim>\<open>us-east-1a\<close> is chosen; with \<^verbatim>\<open>us-east-1b\<close> requested, the subnet of that zone.
\<close>

lemma get_default_subnet_examples:
  "get_default_subnet
     [\<lparr>SubnetId = ''subnet-b'', AvailabilityZone = ''us-east-1b''\<rparr>,
      \<lparr>SubnetId = ''subnet-a'', AvailabilityZone = ''us-east-1a''\<rparr>] None
     = Some \<lparr>SubnetId = ''subnet-a'', AvailabilityZone = ''us-east-1a''\<rparr>"
  "get_default_subnet
     [\<lparr>SubnetId = ''subnet-b'', AvailabilityZone = ''us-east-1b''\<rparr>,
      \<lparr>SubnetId = ''subnet-a'', AvailabilityZone = ''us-east-1a''\<rparr>] (Some ''us-east-1c'')
     = Some \<lparr>SubnetId = ''subnet-a'', AvailabilityZone = ''us-east-1a''\<rparr>"
  "get_default_subnet
     [\<lparr>SubnetId = ''subnet-b'', AvailabilityZone = ''us-east-1b''\<rparr>,
      \<lparr>SubnetId = ''subnet-a'', AvailabilityZone = ''us-east-1a''\<rparr>] (Some ''us-east-1b'')
     = Some \<lparr>SubnetId = ''subnet-b'', AvailabilityZone = ''us-east-1b''\<rparr>"
  by code_simp+

theorem get_default_subnet_deterministic_witness:
  "[\<lparr>SubnetId = ''subnet-b'', AvailabilityZone = ''us-east-1b''\<rparr>,
    \<lparr>SubnetId = ''subnet-a'', AvailabilityZone = ''us-east-1a''\<rparr>] \<noteq> []
   \<and> (\<exists>s. get_default_subnet
              [\<lparr>SubnetId = ''subnet-b'', AvailabilityZone = ''us-east-1b''\<rparr>,
               \<lparr>SubnetId = ''subnet-a'', AvailabilityZone = ''us-east-1a''\<rparr>]
              (Some ''us-east-1b'') = Some s
          \<and> AvailabilityZone s = ''us-east-1b'')"
proof -
  let ?subnets = "[\<lparr>SubnetId = ''subnet-b'', AvailabilityZone = ''us-east-1b''\<rparr>,
                   \<lparr>SubnetId = ''subnet-a'', AvailabilityZone = ''us-east-1a''\<rparr>]"
  have ne: "?subnets \<noteq> []" by simp
  from get_default_subnet_deterministic [OF ne, of "Some ''us-east-1b''"]
  obtain s where "get_default_subnet ?subnets (Some ''us-east-1b'') = Some s"
    and "if Some ''us-east-1b'' \<noteq> None
            \<and> the (Some ''us-east-1b'') \<in> AvailabilityZone ` set ?subnets
         then AvailabilityZone s = the (Some ''us-east-1b'')
         else \<forall>t\<in>set ?subnets. AvailabilityZone s \<le> AvailabilityZone t"
    by blast
  then have "get_default_subnet ?subnets (Some ''us-east-1b'') = Some s
     \<and> AvailabilityZone s = ''us-east-1b''"
    by simp
  with ne show ?thesis by blast
qed

section \<open>Properties of the attribute diff\<close>

text \<open>
  The loop over the table of mutable attributes honours the skip list: whatever it adds to
  the changes names an attribute key that is not skipped.
\<close>

lemma diff_mappings_honours_skip:
  "diff_mappings describe_attr inst_id params skip mappings acc = Inr changes \<Longrightarrow>
   c \<in> set changes \<Longrightarrow>
   c \<in> set acc \<or> (\<exists>k v. c = ChangeRequest inst_id k v \<and> k \<notin> set skip)"
proof (induction mappings arbitrary: acc)
  case Nil
  then show ?case by simp
next
  case (Cons m ms)
  show ?case
  proof (cases "params_get_bool params (param_key m) \<noteq> None \<and> instance_key m \<notin> set skip")
    case False
    with Cons.prems have "diff_mappings describe_attr inst_id params skip ms acc = Inr changes"
      by auto
    from Cons.IH [OF this Cons.prems(2)] show ?thesis .
  next
    case True
    show ?thesis
    proof (cases "describe_attr (attribute_name m) inst_id")
      case (Inl e)
      with True Cons.prems show ?thesis by auto
    next
      case (Inr v)
      show ?thesis
      proof (cases "Some v \<noteq> params_get_bool params (param_key m)")
        case False
        with True Inr Cons.prems
        have "diff_mappings describe_attr inst_id params skip ms acc = Inr changes"
          by auto
        from Cons.IH [OF this Cons.prems(2)] show ?thesis .
      next
        case neq: True
        let ?acc = "acc @ [ChangeRequest inst_id (instance_key m)
                            (the (params_get_bool params (param_key m)))]"
        from True Inr neq Cons.prems
        have "diff_mappings describe_attr inst_id params skip ms ?acc = Inr changes"
          by auto
        from Cons.IH [OF this Cons.prems(2)] True show ?thesis by auto
      qed
    qed
  qed
qed

text \<open>
  Claim C2, as stated, fails: the instance has its source/destination check on, the
  desired configuration turns it off under \<^verbatim>\<open>network.source_dest_check\<close>, and the skip
  list names the attribute, by the key of the instance attribute as the table of the other
  two attributes does and by the key of the parameter as well. The function still emits
  the change for \<^verbatim>\<open>SourceDestCheck\<close>: the branch for the nested attribute never looks
  at the skip list.
\<close>

theorem diff_instance_and_params_skip_counterexample:
  "diff_instance_and_params (\<lambda>attribute inst_id. Inr False) (plain_instance ''i-1'' ''running'')
     (default_params\<lparr>network :=
        Some \<lparr>interfaces = None, source_dest_check = Some (PyBool False),
              net_ebs_optimized = None\<rparr>\<rparr>)
     (Some [''SourceDestCheck'', ''source_dest_check''])
   = Inr [ChangeRequest ''i-1'' ''SourceDestCheck'' False]"
  by code_simp

text \<open>
  Claim C2, amended. When the provider reports the two attributes of the table, the
  function returns exactly these changes, in this order: for \<^verbatim>\<open>EbsOptimized\<close> and for
  \<^verbatim>\<open>DisableApiTermination\<close>, a change to the desired value if and only if the desired
  value is set, the skip list does not name the attribute, and the reported value differs
  from it; for \<^verbatim>\<open>SourceDestCheck\<close>, a change to the truth value of
  \<^verbatim>\<open>network.source_dest_check\<close> if and only if that is set and differs from the value
  of the instance, whatever the skip list holds. The callers in the module pass no skip
  list (\<^verbatim>\<open>handle_existing\<close>) or the list of \<^verbatim>\<open>UserData\<close> and \<^verbatim>\<open>EbsOptimized\<close>
  (\<^verbatim>\<open>ensure_present\<close>) and so never name \<^verbatim>\<open>SourceDestCheck\<close>.
\<close>

theorem diff_instance_and_params_changes:
  assumes "describe_attr ''ebsOptimized'' (InstanceId inst) = Inr reported_ebs"
    and "describe_attr ''disableApiTermination'' (InstanceId inst) = Inr reported_termination"
  shows "diff_instance_and_params describe_attr inst params skip_arg =
     Inr ((case ebs_optimized params of
             None \<Rightarrow> []
           | Some v \<Rightarrow>
               if ''EbsOptimized'' \<notin> set (case skip_arg of None \<Rightarrow> [] | Some s \<Rightarrow> s)
                  \<and> v \<noteq> reported_ebs
               then [ChangeRequest (InstanceId inst) ''EbsOptimized'' v] else [])
        @ (case termination_protection params of
             None \<Rightarrow> []
           | Some v \<Rightarrow>
               if ''DisableApiTermination'' \<notin> set (case skip_arg of None \<Rightarrow> [] | Some s \<Rightarrow> s)
                  \<and> v \<noteq> reported_termination
               then [ChangeRequest (InstanceId inst) ''DisableApiTermination'' v] else [])
        @ (case network_source_dest_check params of
             None \<Rightarrow> []
           | Some v \<Rightarrow>
               if SourceDestCheck inst \<noteq> truthy v
               then [ChangeRequest (InstanceId inst) ''SourceDestCheck'' (truthy v)] else []))"
proof -
  let ?skip = "case skip_arg of None \<Rightarrow> [] | Some s \<Rightarrow> s"
  let ?A = "case ebs_optimized params of
             None \<Rightarrow> []
           | Some v \<Rightarrow>
               if ''EbsOptimized'' \<notin> set ?skip \<and> v \<noteq> reported_ebs
               then [ChangeRequest (InstanceId inst) ''EbsOptimized'' v] else []"
  let ?B = "case termination_protection params of
             None \<Rightarrow> []
           | Some v \<Rightarrow>
               if ''DisableApiTermination'' \<notin> set ?skip \<and> v \<noteq> reported_termination
               then [ChangeRequest (InstanceId inst) ''DisableApiTermination'' v] else []"
  have table: "diff_mappings describe_attr (InstanceId inst) params ?skip param_mappings []
      = Inr (?A @ ?B)"
    using assms
    by (cases "ebs_optimized params"; cases "termination_protection params")
       (auto simp: param_mappings_def params_get_bool_def)
  show ?thesis
    unfolding diff_instance_and_params_def Let_def table
    by (simp split: option.splits)
qed

theorem diff_instance_and_params_changes_witness:
  "diff_instance_and_params (\<lambda>attribute inst_id. Inr False) (plain_instance ''i-1'' ''running'')
     (default_params\<lparr>ebs_optimized := Some True, termination_protection := Some True,
        network := Some \<lparr>interfaces = None, source_dest_check = Some (PyBool False),
                         net_ebs_optimized = None\<rparr>\<rparr>)
     (Some [''UserData'', ''EbsOptimized''])
   = Inr [ChangeRequest ''i-1'' ''DisableApiTermination'' True,
          ChangeRequest ''i-1'' ''SourceDestCheck'' False]"
  using diff_instance_and_params_changes
          [of "\<lambda>attribute inst_id. Inr False" "plain_instance ''i-1'' ''running''" False False
              "default_params\<lparr>ebs_optimized := Some True, termination_protection := Some True,
                 network := Some \<lparr>interfaces = None, source_dest_check = Some (PyBool False),
                                  net_ebs_optimized = None\<rparr>\<rparr>"
              "Some [''UserData'', ''EbsOptimized'']"]
  by (simp add: default_params_def plain_instance_def network_source_dest_check_def)

section \<open>Properties of the network attachments\<close>

text \<open>
  \<^verbatim>\<open>xs.index(x)\<close> finds the first position of an element of the list, and an element of
  the list only.
\<close>

lemma list_index_Some_iff:
  "list_index xs x = Some i \<longleftrightarrow> i < length xs \<and> xs ! i = x \<and> (\<forall>j<i. xs ! j \<noteq> x)"
proof (induction xs arbitrary: i)
  case Nil
  then show ?case by simp
next
  case (Cons y ys)
  show ?case
  proof (cases "y = x")
    case True
    then show ?thesis by (cases i) auto
  next
    case False
    show ?thesis
    proof (cases i)
      case 0
      with False show ?thesis by auto
    next
      case (Suc n)
      have "(\<forall>j<Suc n. (y # ys) ! j \<noteq> x) \<longleftrightarrow> (\<forall>j<n. ys ! j \<noteq> x)"
        using False by (auto simp: less_Suc_eq_0_disj)
      with False Suc Cons.IH [of n] show ?thesis by auto
    qed
  qed
qed

lemma list_index_None_iff: "list_index xs x = None \<longleftrightarrow> x \<notin> set xs"
  by (induction xs) auto

lemma set_set_difference: "set (set_difference new_ids old_ids) = set new_ids - set old_ids"
  by (auto simp: set_difference_def)

lemma distinct_set_difference: "distinct (set_difference new_ids old_ids)"
  by (simp add: set_difference_def)

lemma set_difference_again:
  "set_difference new_ids (old_ids @ set_difference new_ids old_ids) = []"
  by (auto simp: set_difference_def filter_empty_conv)

text \<open>
  The loop over the identifiers to attach: every request it sends attaches one of them at
  its first position among the new identifiers; when the loop ends without an error, it
  has sent one request for each of them, in order.
\<close>

lemma attach_all_requests:
  "attach_all attach inst_id new_ids to_attach = (r, reqs) \<Longrightarrow> q \<in> set reqs \<Longrightarrow>
   \<exists>e idx. q = AttachNetworkInterface idx inst_id e \<and> e \<in> set to_attach
     \<and> list_index new_ids e = Some idx"
proof (induction to_attach arbitrary: r reqs)
  case Nil
  then show ?case by simp
next
  case (Cons eni rest)
  show ?case
  proof (cases "list_index new_ids eni")
    case None
    with Cons.prems show ?thesis by simp
  next
    case (Some idx)
    show ?thesis
    proof (cases "attach idx inst_id eni")
      case raised: (Some e)
      with Some Cons.prems show ?thesis by auto
    next
      case None
      obtain r' reqs' where rest: "attach_all attach inst_id new_ids rest = (r', reqs')"
        by (cases "attach_all attach inst_id new_ids rest")
      with Some None Cons.prems
      have reqs: "reqs = AttachNetworkInterface idx inst_id eni # reqs'" by simp
      show ?thesis
      proof (cases "q = AttachNetworkInterface idx inst_id eni")
        case True
        with Some show ?thesis by auto
      next
        case False
        with reqs Cons.prems(2) have "q \<in> set reqs'" by simp
        from Cons.IH [OF rest this] show ?thesis by auto
      qed
    qed
  qed
qed

lemma attach_all_complete:
  "attach_all attach inst_id new_ids to_attach = (None, reqs) \<Longrightarrow>
   reqs = map (\<lambda>e. AttachNetworkInterface (the (list_index new_ids e)) inst_id e) to_attach"
proof (induction to_attach arbitrary: reqs)
  case Nil
  then show ?case by simp
next
  case (Cons eni rest)
  show ?case
  proof (cases "list_index new_ids eni")
    case None
    with Cons.prems show ?thesis by simp
  next
    case (Some idx)
    show ?thesis
    proof (cases "attach idx inst_id eni")
      case raised: (Some e)
      with Some Cons.prems show ?thesis by simp
    next
      case None
      obtain r' reqs' where rest: "attach_all attach inst_id new_ids rest = (r', reqs')"
        by (cases "attach_all attach inst_id new_ids rest")
      with Some None Cons.prems
      have "r' = None" "reqs = AttachNetworkInterface idx inst_id eni # reqs'" by simp_all
      with rest Cons.IH [of reqs'] Some show ?thesis by simp
    qed
  qed
qed

text \<open>
  The loop returns when the provider accepts every attachment and every identifier to
  attach is among the new identifiers.
\<close>

lemma attach_all_returns:
  "\<forall>idx i e. attach idx i e = None \<Longrightarrow> set to_attach \<subseteq> set new_ids \<Longrightarrow>
   fst (attach_all attach inst_id new_ids to_attach) = None"
proof (induction to_attach)
  case Nil
  then show ?case by simp
next
  case (Cons eni rest)
  from Cons.prems(2) have "eni \<in> set new_ids" by simp
  then obtain idx where idx: "list_index new_ids eni = Some idx"
    using list_index_None_iff [of new_ids eni] by (cases "list_index new_ids eni") auto
  from Cons.prems(2) have "set rest \<subseteq> set new_ids" by simp
  from Cons.IH [OF Cons.prems(1) this]
  have "fst (attach_all attach inst_id new_ids rest) = None" .
  moreover from Cons.prems(1) have "attach idx inst_id eni = None" by blast
  ultimately show ?case using idx by (auto split: prod.splits)
qed

text \<open>
  When every entry of the desired list refers to an interface, the new identifiers are
  the identifiers of the entries, position by position.
\<close>

lemma collect_new_ids_all_references:
  "\<forall>x\<in>set entries. x \<noteq> IfaceDict None \<and> x \<noteq> IfaceOther \<Longrightarrow>
   collect_new_ids entries
     = map (\<lambda>x. case x of IfaceText i \<Rightarrow> i | IfaceDict d \<Rightarrow> the d | IfaceOther \<Rightarrow> []) entries"
proof (induction entries)
  case Nil
  then show ?case by simp
next
  case (Cons x xs)
  then show ?case
  proof (cases x)
    case (IfaceDict d)
    with Cons show ?thesis by (cases d) auto
  qed auto
qed

lemma collect_new_ids_positions:
  assumes "\<forall>x\<in>set entries. x \<noteq> IfaceDict None \<and> x \<noteq> IfaceOther"
  shows "length (collect_new_ids entries) = length entries"
    and "i < length entries \<Longrightarrow> collect_new_ids [entries ! i] = [collect_new_ids entries ! i]"
proof -
  let ?f = "\<lambda>x. case x of IfaceText i \<Rightarrow> i | IfaceDict d \<Rightarrow> the d | IfaceOther \<Rightarrow> []"
  have all: "collect_new_ids entries = map ?f entries"
    using assms by (rule collect_new_ids_all_references)
  then show "length (collect_new_ids entries) = length entries" by simp
  assume i: "i < length entries"
  with assms have "\<forall>x\<in>set [entries ! i]. x \<noteq> IfaceDict None \<and> x \<noteq> IfaceOther" by simp
  then have "collect_new_ids [entries ! i] = map ?f [entries ! i]"
    by (rule collect_new_ids_all_references)
  with all i show "collect_new_ids [entries ! i] = [collect_new_ids entries ! i]" by simp
qed

text \<open>
  A desired list that starts with the description of a new interface (a dictionary
  without an identifier), which is not a reference to an interface, and goes on with the
  identifier of an existing one: the description is passed over, and the identifier is
  attached at its position among the identifiers collected, which is 0.
\<close>

lemma change_network_attachments_mixed_entries:
  "change_network_attachments (\<lambda>device_index inst_id eni_id. None)
     (plain_instance ''i-1'' ''running'')
     (default_params\<lparr>network :=
        Some \<lparr>interfaces = Some [IfaceDict None, IfaceText ''eni-1''],
              source_dest_check = None, net_ebs_optimized = None\<rparr>\<rparr>)
   = (Inr True, [AttachNetworkInterface 0 ''i-1'' ''eni-1''])"
  by code_simp

text \<open>
  The attachments in terms of the identifiers collected, for any desired list. Every
  attachment that the function requests is for this instance and for a new identifier
  that is not attached yet, at the first position of that identifier among the new
  identifiers. When the function returns, it has requested the attachment of exactly the
  new identifiers that were not attached, each once, and it reports a change exactly when
  there was one to attach; a second run against the instance with these interfaces
  attached requests nothing and reports no change.
\<close>

lemma change_network_attachments_new_ids:
  assumes "network_interfaces_param params = Some entries"
  shows "let new_ids = collect_new_ids entries;
             old_ids = NetworkInterfaces inst;
             run = change_network_attachments attach inst params
         in (\<forall>q\<in>set (snd run). \<exists>e idx.
                q = AttachNetworkInterface idx (InstanceId inst) e
                \<and> e \<in> set new_ids - set old_ids
                \<and> idx < length new_ids \<and> new_ids ! idx = e \<and> (\<forall>j<idx. new_ids ! j \<noteq> e))
          \<and> (\<forall>changed. fst run = Inr changed \<longrightarrow>
                changed = (set new_ids - set old_ids \<noteq> {})
                \<and> distinct (snd run)
                \<and> {e. \<exists>idx. AttachNetworkInterface idx (InstanceId inst) e \<in> set (snd run)}
                    = set new_ids - set old_ids
                \<and> change_network_attachments attach
                      (inst\<lparr>NetworkInterfaces := old_ids @ set_difference new_ids old_ids\<rparr>) params
                    = (Inr False, []))
          \<and> ((\<forall>idx i e. attach idx i e = None) \<longrightarrow> (\<exists>changed. fst run = Inr changed))"
proof -
  let ?new = "collect_new_ids entries"
  let ?old = "NetworkInterfaces inst"
  let ?delta = "set_difference ?new ?old"
  let ?run = "change_network_attachments attach inst params"
  obtain r reqs where a: "attach_all attach (InstanceId inst) ?new ?delta = (r, reqs)"
    by (cases "attach_all attach (InstanceId inst) ?new ?delta")
  have reqs: "snd ?run = reqs"
    using assms a by (cases r) (simp_all add: change_network_attachments_def Let_def)
  have first: "\<exists>e idx. q = AttachNetworkInterface idx (InstanceId inst) e
                \<and> e \<in> set ?new - set ?old
                \<and> idx < length ?new \<and> ?new ! idx = e \<and> (\<forall>j<idx. ?new ! j \<noteq> e)"
    if "q \<in> set (snd ?run)" for q
  proof -
    from that reqs have "q \<in> set reqs" by simp
    from attach_all_requests [OF a this] obtain e idx where
      "q = AttachNetworkInterface idx (InstanceId inst) e" "e \<in> set ?delta"
      "list_index ?new e = Some idx"
      by blast
    then show ?thesis by (auto simp: set_set_difference list_index_Some_iff)
  qed
  have second: "changed = (set ?new - set ?old \<noteq> {})
                \<and> distinct (snd ?run)
                \<and> {e. \<exists>idx. AttachNetworkInterface idx (InstanceId inst) e \<in> set (snd ?run)}
                    = set ?new - set ?old
                \<and> change_network_attachments attach
                      (inst\<lparr>NetworkInterfaces := ?old @ ?delta\<rparr>) params
                    = (Inr False, [])"
    if ok: "fst ?run = Inr changed" for changed
  proof -
    from ok assms a have r: "r = None"
      by (cases r) (simp_all add: change_network_attachments_def Let_def)
    from ok assms a r have ch: "changed = (length ?delta \<noteq> 0)"
      by (simp add: change_network_attachments_def Let_def)
    have "set ?delta = set ?new - set ?old" by (rule set_set_difference)
    with ch have c1: "changed = (set ?new - set ?old \<noteq> {})"
      by (metis length_0_conv set_empty)
    from a r have m: "reqs
        = map (\<lambda>e. AttachNetworkInterface (the (list_index ?new e)) (InstanceId inst) e) ?delta"
      by (simp add: attach_all_complete)
    have "inj_on (\<lambda>e. AttachNetworkInterface (the (list_index ?new e)) (InstanceId inst) e)
            (set ?delta)"
      by (rule inj_onI) simp
    with m have c2: "distinct reqs"
      by (simp add: distinct_map distinct_set_difference)
    have c3: "{e. \<exists>idx. AttachNetworkInterface idx (InstanceId inst) e \<in> set reqs}
        = set ?new - set ?old"
      unfolding m by (auto simp: set_set_difference)
    have c4: "change_network_attachments attach (inst\<lparr>NetworkInterfaces := ?old @ ?delta\<rparr>) params
        = (Inr False, [])"
      using assms by (simp add: change_network_attachments_def Let_def set_difference_again)
    from c1 c2 c3 c4 reqs show ?thesis by simp
  qed
  have third: "\<exists>changed. fst ?run = Inr changed" if acc: "\<forall>idx i e. attach idx i e = None"
  proof -
    have "set ?delta \<subseteq> set ?new" by (auto simp: set_set_difference)
    with acc have "fst (attach_all attach (InstanceId inst) ?new ?delta) = None"
      by (rule attach_all_returns)
    with a have "r = None" by simp
    with assms a show ?thesis by (simp add: change_network_attachments_def Let_def)
  qed
  from first second third show ?thesis unfolding Let_def by blast
qed

text \<open>
  Claim C5. The desired list is a list of references to interfaces: identifiers, or
  dictionaries with an identifier. Every attachment that the function requests is for
  this instance and for a desired identifier that is not attached yet, with the device
  index equal to the position of that identifier in the desired list (the first one, if
  the list names it twice). When the function returns, it has requested the attachment
  of exactly the desired identifiers that were not attached, each once, so none that was
  attached already, and it reports a change exactly when there was one to attach; a
  second run against the instance with these interfaces attached as well requests
  nothing and reports no change. The function does return when the provider accepts
  every attachment.
\<close>

theorem change_network_attachments_delta:
  assumes "network_interfaces_param params = Some desired"
    and "\<forall>x\<in>set desired. x \<noteq> IfaceDict None \<and> x \<noteq> IfaceOther"
  shows "let desired_ids = collect_new_ids desired;
             observed = NetworkInterfaces inst;
             run = change_network_attachments attach inst params
         in length desired_ids = length desired
          \<and> (\<forall>q\<in>set (snd run). \<exists>e idx.
                q = AttachNetworkInterface idx (InstanceId inst) e
                \<and> e \<in> set desired_ids - set observed
                \<and> idx < length desired \<and> collect_new_ids [desired ! idx] = [e]
                \<and> (\<forall>j<idx. collect_new_ids [desired ! j] \<noteq> [e]))
          \<and> (\<forall>changed. fst run = Inr changed \<longrightarrow>
                changed = (set desired_ids - set observed \<noteq> {})
                \<and> distinct (snd run)
                \<and> {e. \<exists>idx. AttachNetworkInterface idx (InstanceId inst) e \<in> set (snd run)}
                    = set desired_ids - set observed
                \<and> change_network_attachments attach
                      (inst\<lparr>NetworkInterfaces :=
                              observed @ set_difference desired_ids observed\<rparr>) params
                    = (Inr False, []))
          \<and> ((\<forall>idx i e. attach idx i e = None) \<longrightarrow> (\<exists>changed. fst run = Inr changed))"
proof -
  let ?new = "collect_new_ids desired"
  let ?old = "NetworkInterfaces inst"
  let ?run = "change_network_attachments attach inst params"
  note pos = collect_new_ids_positions [OF assms(2)]
  note N = change_network_attachments_new_ids [OF assms(1), of inst attach, unfolded Let_def]
  have first: "\<exists>e idx. q = AttachNetworkInterface idx (InstanceId inst) e
                \<and> e \<in> set ?new - set ?old
                \<and> idx < length desired \<and> collect_new_ids [desired ! idx] = [e]
                \<and> (\<forall>j<idx. collect_new_ids [desired ! j] \<noteq> [e])"
    if "q \<in> set (snd ?run)" for q
  proof -
    from N that obtain e idx where q: "q = AttachNetworkInterface idx (InstanceId inst) e"
      and e: "e \<in> set ?new - set ?old"
      and idx: "idx < length ?new" "?new ! idx = e" "\<forall>j<idx. ?new ! j \<noteq> e"
      by blast
    from idx(1) pos(1) have lt: "idx < length desired" by simp
    from pos(2) [OF lt] idx(2) have here: "collect_new_ids [desired ! idx] = [e]" by simp
    have before: "collect_new_ids [desired ! j] \<noteq> [e]" if "j < idx" for j
    proof -
      from that lt have "j < length desired" by simp
      from pos(2) [OF this] have "collect_new_ids [desired ! j] = [?new ! j]" .
      with idx(3) that show ?thesis by simp
    qed
    from q e lt here before show ?thesis by blast
  qed
  from N have second: "\<forall>changed. fst ?run = Inr changed \<longrightarrow>
                changed = (set ?new - set ?old \<noteq> {})
                \<and> distinct (snd ?run)
                \<and> {e. \<exists>idx. AttachNetworkInterface idx (InstanceId inst) e \<in> set (snd ?run)}
                    = set ?new - set ?old
                \<and> change_network_attachments attach
                      (inst\<lparr>NetworkInterfaces := ?old @ set_difference ?new ?old\<rparr>) params
                    = (Inr False, [])"
    by blast
  from N have third: "(\<forall>idx i e. attach idx i e = None) \<longrightarrow> (\<exists>changed. fst ?run = Inr changed)"
    by blast
  from pos(1) first second third show ?thesis unfolding Let_def by blast
qed

theorem change_network_attachments_delta_witness:
  "network_interfaces_param
     (default_params\<lparr>network :=
        Some \<lparr>interfaces = Some [IfaceText ''eni-a'', IfaceDict (Some ''eni-b'')],
              source_dest_check = None, net_ebs_optimized = None\<rparr>\<rparr>)
     = Some [IfaceText ''eni-a'', IfaceDict (Some ''eni-b'')]
   \<and> change_network_attachments (\<lambda>device_index inst_id eni_id. None)
        ((plain_instance ''i-1'' ''running'')\<lparr>NetworkInterfaces := [''eni-a'']\<rparr>)
        (default_params\<lparr>network :=
           Some \<lparr>interfaces = Some [IfaceText ''eni-a'', IfaceDict (Some ''eni-b'')],
                 source_dest_check = None, net_ebs_optimized = None\<rparr>\<rparr>)
     = (Inr True, [AttachNetworkInterface 1 ''i-1'' ''eni-b''])
   \<and> change_network_attachments (\<lambda>device_index inst_id eni_id. None)
        ((plain_instance ''i-1'' ''running'')\<lparr>NetworkInterfaces := [''eni-a'', ''eni-b'']\<rparr>)
        (default_params\<lparr>network :=
           Some \<lparr>interfaces = Some [IfaceText ''eni-a'', IfaceDict (Some ''eni-b'')],
                 source_dest_check = None, net_ebs_optimized = None\<rparr>\<rparr>)
     = (Inr False, [])"
proof -
  let ?entries = "[IfaceText ''eni-a'', IfaceDict (Some ''eni-b'')]"
  let ?params = "default_params\<lparr>network :=
        Some \<lparr>interfaces = Some ?entries, source_dest_check = None, net_ebs_optimized = None\<rparr>\<rparr>"
  let ?inst = "(plain_instance ''i-1'' ''running'')\<lparr>NetworkInterfaces := [''eni-a'']\<rparr>"
  let ?attach = "\<lambda>device_index inst_id eni_id. None :: boto_error option"
  have h: "network_interfaces_param ?params = Some ?entries"
    by (simp add: network_interfaces_param_def default_params_def)
  have refs: "\<forall>x\<in>set ?entries. x \<noteq> IfaceDict None \<and> x \<noteq> IfaceOther"
    by simp
  have run: "change_network_attachments ?attach ?inst ?params
      = (Inr True, [AttachNetworkInterface 1 ''i-1'' ''eni-b''])"
    by code_simp
  have d: "set_difference (collect_new_ids ?entries) (NetworkInterfaces ?inst) = [''eni-b'']"
    by (simp add: set_difference_def plain_instance_def)
  have ok: "fst (change_network_attachments ?attach ?inst ?params) = Inr True"
    by (simp only: run fst_conv)
  from change_network_attachments_delta [OF h refs, of ?inst ?attach, unfolded Let_def]
  have "\<forall>changed. fst (change_network_attachments ?attach ?inst ?params) = Inr changed \<longrightarrow>
          changed = (set (collect_new_ids ?entries) - set (NetworkInterfaces ?inst) \<noteq> {})
          \<and> distinct (snd (change_network_attachments ?attach ?inst ?params))
          \<and> {e. \<exists>idx. AttachNetworkInterface idx (InstanceId ?inst) e
                     \<in> set (snd (change_network_attachments ?attach ?inst ?params))}
              = set (collect_new_ids ?entries) - set (NetworkInterfaces ?inst)
          \<and> change_network_attachments ?attach
                (?inst\<lparr>NetworkInterfaces := NetworkInterfaces ?inst
                    @ set_difference (collect_new_ids ?entries) (NetworkInterfaces ?inst)\<rparr>) ?params
              = (Inr False, [])"
    by blast
  with ok have "change_network_attachments ?attach
          (?inst\<lparr>NetworkInterfaces := NetworkInterfaces ?inst
                    @ set_difference (collect_new_ids ?entries) (NetworkInterfaces ?inst)\<rparr>) ?params
      = (Inr False, [])"
    by blast
  then have "change_network_attachments ?attach
          ((plain_instance ''i-1'' ''running'')\<lparr>NetworkInterfaces := [''eni-a'', ''eni-b'']\<rparr>) ?params
      = (Inr False, [])"
    unfolding d by (simp add: plain_instance_def)
  with h run show ?thesis by blast
qed

section \<open>Properties of the resource location\<close>

text \<open>
  The key under which an entry of the filters is submitted: a key with the prefix
  \<^verbatim>\<open>tag:\<close> as it is, any other key with its underscores replaced.
\<close>

lemma tag_prefix_map:
  "map (\<lambda>c. if c = CHR ''_'' then CHR ''-'' else c) xs = ''tag:'' \<longleftrightarrow> xs = ''tag:''"
proof
  assume a: "map (\<lambda>c. if c = CHR ''_'' then CHR ''-'' else c) xs = ''tag:''"
  then obtain a b c d where xs: "xs = [a, b, c, d]"
    by (auto simp: map_eq_Cons_conv)
  from a show "xs = ''tag:''"
    unfolding xs by (simp split: if_splits)
next
  assume "xs = ''tag:''"
  then show "map (\<lambda>c. if c = CHR ''_'' then CHR ''-'' else c) xs = ''tag:''" by simp
qed

lemma startswith_replace_underscores:
  "startswith (replace_underscores key) ''tag:'' = startswith key ''tag:''"
proof -
  let ?f = "\<lambda>c. if c = CHR ''_'' then CHR ''-'' else c"
  have "take (length ''tag:'') (map ?f key) = map ?f (take (length ''tag:'') key)"
    by (rule take_map)
  then show ?thesis
    unfolding startswith_def replace_underscores_def
    by (simp only: tag_prefix_map)
qed

lemma normalized_key_idem: "normalized_key (normalized_key key) = normalized_key key"
  by (simp add: normalized_key_def replace_underscores_def startswith_replace_underscores)

text \<open>
  The loop under Python 2: over distinct keys that the dictionary holds and that do not
  collide after normalization, the loop never raises, every entry ends up under its
  normalized key with its value, and no other key appears.
\<close>

lemma snapshot_loop_correct:
  "distinct keys \<Longrightarrow> set keys \<subseteq> dom (map_of filters) \<Longrightarrow>
   inj_on normalized_key (dom (map_of filters)) \<Longrightarrow>
   \<exists>normalized. snapshot_loop keys filters = Inr normalized
     \<and> (\<forall>k v. map_of filters k = Some v \<longrightarrow>
           map_of normalized (if k \<in> set keys then normalized_key k else k) = Some v)
     \<and> dom (map_of normalized)
         = (\<lambda>k. if k \<in> set keys then normalized_key k else k) ` dom (map_of filters)"
proof (induction keys arbitrary: filters)
  case Nil
  then show ?case by simp
next
  case (Cons key keys)
  from Cons.prems obtain val where val: "map_of filters key = Some val" by auto
  let ?g = "\<lambda>k. if k \<in> set keys then normalized_key k else k"
  show ?case
  proof (cases "startswith key ''tag:''")
    case True
    then have nk: "normalized_key key = key" by (simp add: normalized_key_def)
    from Cons.prems have p: "distinct keys" "set keys \<subseteq> dom (map_of filters)" by auto
    from Cons.IH [OF p Cons.prems(3)] obtain normalized where
      n: "snapshot_loop keys filters = Inr normalized"
         "\<forall>k v. map_of filters k = Some v \<longrightarrow> map_of normalized (?g k) = Some v"
         "dom (map_of normalized) = ?g ` dom (map_of filters)"
      by blast
    have same: "(\<lambda>k. if k \<in> set (key # keys) then normalized_key k else k) = ?g"
      using nk by (intro ext) simp
    have run: "snapshot_loop (key # keys) filters = Inr normalized"
      using True n(1) by simp
    show ?thesis
      unfolding same [THEN fun_cong] same using run n(2,3) by blast
  next
    case False
    then have nk: "normalized_key key = replace_underscores key"
      by (simp add: normalized_key_def)
    let ?step = "AList.update (normalized_key key) val (AList.delete key filters)"
    have m1: "map_of ?step = ((map_of filters)(key := None))(normalized_key key \<mapsto> val)"
      by (simp add: update_conv' delete_conv')
    have other: "k \<noteq> normalized_key key"
      if "k \<in> dom (map_of filters)" "k \<noteq> key" for k
    proof
      assume "k = normalized_key key"
      then have "normalized_key k = normalized_key key" by (simp add: normalized_key_idem)
      with Cons.prems(3) that(1) val have "k = key" by (auto dest: inj_onD)
      with that(2) show False by simp
    qed
    have d1: "dom (map_of ?step) = insert (normalized_key key) (dom (map_of filters) - {key})"
      unfolding m1 by simp
    have p1: "distinct keys" using Cons.prems by simp
    have p2: "set keys \<subseteq> dom (map_of ?step)"
      unfolding d1 using Cons.prems(1,2) by auto
    have p3: "inj_on normalized_key (dom (map_of ?step))"
      unfolding d1
    proof (rule inj_onI)
      fix x y
      assume x: "x \<in> insert (normalized_key key) (dom (map_of filters) - {key})"
         and y: "y \<in> insert (normalized_key key) (dom (map_of filters) - {key})"
         and e: "normalized_key x = normalized_key y"
      have k: "key \<in> dom (map_of filters)" using val by auto
      show "x = y"
      proof (cases "x = normalized_key key")
        case True
        show ?thesis
        proof (cases "y = normalized_key key")
          case True
          with \<open>x = normalized_key key\<close> show ?thesis by simp
        next
          case False
          with y have y': "y \<in> dom (map_of filters)" "y \<noteq> key" by auto
          from e True have "normalized_key y = normalized_key key"
            by (simp add: normalized_key_idem)
          with Cons.prems(3) y'(1) k have "y = key" by (auto dest: inj_onD)
          with y'(2) show ?thesis by simp
        qed
      next
        case False
        with x have x': "x \<in> dom (map_of filters)" "x \<noteq> key" by auto
        show ?thesis
        proof (cases "y = normalized_key key")
          case True
          with e have "normalized_key x = normalized_key key"
            by (simp add: normalized_key_idem)
          with Cons.prems(3) x'(1) k have "x = key" by (auto dest: inj_onD)
          with x'(2) show ?thesis by simp
        next
          case False
          with y have "y \<in> dom (map_of filters)" by auto
          with Cons.prems(3) x'(1) e show ?thesis by (auto dest: inj_onD)
        qed
      qed
    qed
    from Cons.IH [OF p1 p2 p3] obtain normalized where
      n: "snapshot_loop keys ?step = Inr normalized"
         "\<forall>k v. map_of ?step k = Some v \<longrightarrow> map_of normalized (?g k) = Some v"
         "dom (map_of normalized) = ?g ` dom (map_of ?step)"
      by blast
    have run: "snapshot_loop (key # keys) filters = Inr normalized"
      using False val n(1) nk by (simp add: dict_pop_def dict_setitem_def)
    have gk: "?g (normalized_key key) = normalized_key key"
      by (simp add: normalized_key_idem)
    have entries: "map_of normalized (if k \<in> set (key # keys) then normalized_key k else k) = Some v"
      if kv: "map_of filters k = Some v" for k v
    proof (cases "k = key")
      case True
      with kv val have "v = val" by simp
      moreover have "map_of ?step (normalized_key key) = Some val" by (simp add: m1)
      ultimately have "map_of normalized (?g (normalized_key key)) = Some v"
        using n(2) by blast
      with True gk show ?thesis by simp
    next
      case False
      from kv have "k \<in> dom (map_of filters)" by auto
      from other [OF this False] kv False have "map_of ?step k = Some v" by (simp add: m1)
      with n(2) have "map_of normalized (?g k) = Some v" by blast
      with False show ?thesis by simp
    qed
    have doms: "dom (map_of normalized)
        = (\<lambda>k. if k \<in> set (key # keys) then normalized_key k else k) ` dom (map_of filters)"
      (is "_ = ?h ` _")
    proof -
      have k: "key \<in> dom (map_of filters)" using val by auto
      have hk: "?h key = normalized_key key" by simp
      have hg: "?h x = ?g x" if "x \<noteq> key" for x using that by simp
      have a: "dom (map_of normalized)
          = insert (normalized_key key) (?g ` (dom (map_of filters) - {key}))"
        unfolding n(3) d1 image_insert gk ..
      have b: "?g ` (dom (map_of filters) - {key}) = ?h ` (dom (map_of filters) - {key})"
        by (rule image_cong) (simp_all add: hg)
      have c: "dom (map_of filters) = insert key (dom (map_of filters) - {key})"
        using k by blast
      have "?h ` dom (map_of filters)
          = insert (?h key) (?h ` (dom (map_of filters) - {key}))"
        by (subst c) (simp only: image_insert)
      with a b hk show ?thesis by simp
    qed
    from run entries doms show ?thesis by blast
  qed
qed

text \<open>
  Under Python 2 the loop keeps the keys of the dictionary distinct, and over distinct
  keys that the dictionary holds it never raises, collisions or not.
\<close>

lemma snapshot_loop_distinct:
  "distinct (map fst filters) \<Longrightarrow> snapshot_loop keys filters = Inr normalized \<Longrightarrow>
   distinct (map fst normalized)"
proof (induction keys arbitrary: filters)
  case Nil
  then show ?case by simp
next
  case (Cons key keys)
  show ?case
  proof (cases "startswith key ''tag:''")
    case True
    with Cons.prems(2) have "snapshot_loop keys filters = Inr normalized" by simp
    from Cons.IH [OF Cons.prems(1) this] show ?thesis .
  next
    case False
    show ?thesis
    proof (cases "map_of filters key")
      case None
      with False Cons.prems(2) show ?thesis by (simp add: dict_pop_def)
    next
      case (Some val)
      let ?step = "AList.update (replace_underscores key) val (AList.delete key filters)"
      have d: "distinct (map fst ?step)"
        using Cons.prems(1) by (simp add: distinct_update distinct_delete)
      from False Some Cons.prems(2) have "snapshot_loop keys ?step = Inr normalized"
        by (simp add: dict_pop_def dict_setitem_def)
      from Cons.IH [OF d this] show ?thesis .
    qed
  qed
qed

lemma snapshot_loop_returns:
  "distinct keys \<Longrightarrow> set keys \<subseteq> dom (map_of filters) \<Longrightarrow>
   \<exists>normalized. snapshot_loop keys filters = Inr normalized"
proof (induction keys arbitrary: filters)
  case Nil
  then show ?case by simp
next
  case (Cons key keys)
  from Cons.prems obtain val where val: "map_of filters key = Some val" by auto
  show ?case
  proof (cases "startswith key ''tag:''")
    case True
    from Cons.prems have "distinct keys" "set keys \<subseteq> dom (map_of filters)" by auto
    from Cons.IH [OF this] True show ?thesis by simp
  next
    case False
    let ?step = "AList.update (replace_underscores key) val (AList.delete key filters)"
    have "dom (map_of ?step) = insert (replace_underscores key) (dom (map_of filters) - {key})"
      by (simp add: update_conv' delete_conv')
    with Cons.prems have "distinct keys" "set keys \<subseteq> dom (map_of ?step)" by auto
    from Cons.IH [OF this] False val show ?thesis
      by (simp add: dict_pop_def dict_setitem_def)
  qed
qed


text \<open>
  Neither loop ends in a failure of the module: the loop of Python 2 can only raise
  \<^verbatim>\<open>KeyError\<close>, the loop of Python 3 only \<^verbatim>\<open>RuntimeError\<close>.
\<close>

lemma snapshot_loop_error: "snapshot_loop keys filters = Inl e \<Longrightarrow> \<exists>k. e = KeyError k"
proof (induction keys arbitrary: filters)
  case Nil
  then show ?case by simp
next
  case (Cons key keys)
  show ?case
  proof (cases "startswith key ''tag:''")
    case True
    with Cons.prems have "snapshot_loop keys filters = Inl e" by simp
    from Cons.IH [OF this] show ?thesis .
  next
    case False
    show ?thesis
    proof (cases "map_of filters key")
      case None
      with False Cons.prems show ?thesis by (auto simp: dict_pop_def)
    next
      case (Some val)
      with False Cons.prems
      have "snapshot_loop keys (dict_setitem (AList.delete key filters) (replace_underscores key) val)
              = Inl e"
        by (simp add: dict_pop_def)
      from Cons.IH [OF this] show ?thesis .
    qed
  qed
qed

lemma live_loop_error:
  "live_loop room used left pos es slots = Inl e \<Longrightarrow> \<exists>m. e = RuntimeError m"
proof (induction left arbitrary: pos es slots)
  case 0
  then show ?case by (auto split: if_splits option.splits)
next
  case (Suc left)
  show ?case
  proof (cases "length (live_entries es) \<noteq> used")
    case True
    with Suc.prems show ?thesis by auto
  next
    case False
    show ?thesis
    proof (cases "next_entry pos es")
      case None
      with False Suc.prems show ?thesis by simp
    next
      case (Some found)
      obtain i key v where found: "found = (i, key, v)" by (cases found)
      show ?thesis
      proof (cases "startswith key ''tag:''")
        case True
        with False Some found Suc.prems
        have "live_loop room used left (Suc i) es slots = Inl e" by simp
        from Suc.IH [OF this] show ?thesis .
      next
        case untagged: False
        let ?popped = "es[i := None]"
        let ?new = "replace_underscores key"
        show ?thesis
        proof (cases "key_slot ?new ?popped")
          case (Some j)
          with False \<open>next_entry pos es = Some found\<close> found untagged Suc.prems
          have "live_loop room used left (Suc i) (?popped[j := Some (?new, v)]) slots = Inl e"
            by (simp add: Let_def)
          from Suc.IH [OF this] show ?thesis .
        next
          case None
          show ?thesis
          proof (cases "slots = 0")
            case True
            with None False \<open>next_entry pos es = Some found\<close> found untagged Suc.prems
            have "live_loop room used left (Suc i)
                    (map Some (live_entries ?popped) @ [Some (?new, v)])
                    (room (length (live_entries ?popped)) - 1) = Inl e"
              by (simp add: Let_def)
            from Suc.IH [OF this] show ?thesis .
          next
            case nonzero: False
            with None False \<open>next_entry pos es = Some found\<close> found untagged Suc.prems
            have "live_loop room used left (Suc i) (?popped @ [Some (?new, v)]) (slots - 1) = Inl e"
              by (simp add: Let_def)
            from Suc.IH [OF this] show ?thesis .
          qed
        qed
      qed
    qed
  qed
qed

lemma normalize_filter_keys_no_fail_json:
  "normalize_filter_keys python d \<noteq> Inl (FailJson msg)"
proof (cases python)
  case Python2
  show ?thesis
  proof
    assume a: "normalize_filter_keys python d = Inl (FailJson msg)"
    with Python2
    have "snapshot_loop (dict_keys (dict_items d)) (dict_items d) = Inl (FailJson msg)"
      by (simp split: sum.splits)
    from snapshot_loop_error [OF this] show False by simp
  qed
next
  case (Python3 room)
  show ?thesis
  proof
    assume "normalize_filter_keys python d = Inl (FailJson msg)"
    with Python3
    have "live_loop room (length (dict_items d)) (length (dict_items d)) 0
            (dict_entries d) (dict_free d) = Inl (FailJson msg)"
      by simp
    from live_loop_error [OF this] show False by simp
  qed
qed

text \<open>
  Over keys that all carry the prefix neither loop touches the dictionary: it returns
  with the items as they were.
\<close>

lemma snapshot_loop_tags:
  "\<forall>k\<in>set keys. startswith k ''tag:'' \<Longrightarrow> snapshot_loop keys filters = Inr filters"
  by (induction keys) auto

lemma live_entries_map_Some: "live_entries (map Some xs) = xs"
  by (induction xs) auto

lemma next_entry_None: "next_entry pos es = None \<longleftrightarrow> live_entries (drop pos es) = []"
proof (induction pos es rule: next_entry.induct)
  case (1 pos)
  then show ?case by simp
next
  case (2 pos es)
  then show ?case by (cases pos) auto
next
  case (3 pos e es)
  then show ?case by (cases pos) auto
qed

lemma next_entry_Some:
  "next_entry pos es = Some (i, e) \<Longrightarrow>
   live_entries (drop pos es) = e # live_entries (drop (Suc i) es)"
proof (induction pos es arbitrary: i rule: next_entry.induct)
  case (1 pos)
  then show ?case by simp
next
  case (2 pos es)
  then obtain i' where i': "next_entry (pos - 1) es = Some (i', e)" "i = Suc i'" by auto
  from "2.IH" [OF i'(1)] i'(2) show ?case by (cases pos) auto
next
  case (3 pos x es)
  show ?case
  proof (cases pos)
    case 0
    with "3.prems" show ?thesis by simp
  next
    case (Suc n)
    with "3.prems" obtain i' where i': "next_entry (pos - 1) es = Some (i', e)" "i = Suc i'"
      by auto
    from "3.IH" [OF _ i'(1)] Suc i'(2) show ?thesis by simp
  qed
qed

lemma live_loop_tags:
  "length (live_entries es) = used \<Longrightarrow>
   length (live_entries (drop pos es)) \<le> left \<Longrightarrow>
   \<forall>k\<in>fst ` set (live_entries (drop pos es)). startswith k ''tag:'' \<Longrightarrow>
   live_loop room used left pos es slots = Inr \<lparr>dict_entries = es, dict_free = slots\<rparr>"
proof (induction left arbitrary: pos)
  case 0
  then have "next_entry pos es = None" by (simp add: next_entry_None)
  with 0 show ?case by simp
next
  case (Suc left)
  show ?case
  proof (cases "next_entry pos es")
    case None
    with Suc.prems show ?thesis by simp
  next
    case (Some found)
    obtain i key v where found: "found = (i, key, v)" by (cases found)
    from Some found
    have d: "live_entries (drop pos es) = (key, v) # live_entries (drop (Suc i) es)"
      by (simp add: next_entry_Some)
    with Suc.prems have tag: "startswith key ''tag:''" by simp
    from d Suc.prems have "length (live_entries (drop (Suc i) es)) \<le> left"
      and "\<forall>k\<in>fst ` set (live_entries (drop (Suc i) es)). startswith k ''tag:''"
      by simp_all
    from Suc.IH [OF Suc.prems(1) this] Some found tag Suc.prems(1) show ?thesis by simp
  qed
qed

lemma normalize_filter_keys_tags:
  assumes "\<forall>k\<in>set (dict_keys (dict_items d)). startswith k ''tag:''"
  shows "\<exists>n. normalize_filter_keys python d = Inr n \<and> dict_items n = dict_items d"
proof (cases python)
  case Python2
  with assms show ?thesis
    by (simp add: snapshot_loop_tags dict_items_def live_entries_map_Some)
next
  case (Python3 room)
  have "live_loop room (length (dict_items d)) (length (dict_items d)) 0
          (dict_entries d) (dict_free d)
      = Inr \<lparr>dict_entries = dict_entries d, dict_free = dict_free d\<rparr>"
    using assms by (intro live_loop_tags) (simp_all add: dict_items_def dict_keys_def)
  with Python3 show ?thesis by (simp add: dict_items_def)
qed

text \<open>
  Under Python 3 a dictionary of one entry whose key lacks the prefix, with a slot left in
  its array, makes the loop raise: the key is removed and stored anew behind the place
  of the iterator, which finds it there after it has handed out its only key.
\<close>

lemma normalize_filter_keys_python3_one_key:
  "\<not> startswith key ''tag:'' \<Longrightarrow> 0 < slots \<Longrightarrow>
   normalize_filter_keys (Python3 room) \<lparr>dict_entries = [Some (key, v)], dict_free = slots\<rparr>
     = Inl (RuntimeError ''dictionary keys changed during iteration'')"
  by (simp add: dict_items_def Let_def)

text \<open>
  Under Python 2, when the filters are used (no identifiers) and no two of their keys have
  the same normalized key, the function submits exactly the entries of the filters, each
  under its normalized key and with its value list.
\<close>

lemma find_instances_python2_normalizes:
  assumes "ids = None \<or> ids = Some []"
    and "distinct (dict_keys (dict_items d))"
    and "inj_on normalized_key (set (dict_keys (dict_items d)))"
  shows "\<exists>normalized.
           fst (snd (find_instances Python2 ec2 w ids (Some d)))
             = [DescribeInstances (ByFilters normalized)]
           \<and> set normalized = (\<lambda>(k, v). (normalized_key k, v)) ` set (dict_items d)"
proof -
  let ?fs = "dict_items d"
  have dk: "dom (map_of ?fs) = set (dict_keys ?fs)"
    by (simp add: dict_keys_def dom_map_of_conv_image_fst)
  have dist: "distinct (map fst ?fs)" using assms(2) by (simp add: dict_keys_def)
  from snapshot_loop_correct [of "dict_keys ?fs" ?fs] assms(2,3) dk
  obtain normalized where
    n: "snapshot_loop (dict_keys ?fs) ?fs = Inr normalized"
    and e: "\<forall>k v. map_of ?fs k = Some v \<longrightarrow>
              map_of normalized (if k \<in> set (dict_keys ?fs) then normalized_key k else k) = Some v"
    and dn: "dom (map_of normalized)
              = (\<lambda>k. if k \<in> set (dict_keys ?fs) then normalized_key k else k) ` dom (map_of ?fs)"
    by auto
  have distn: "distinct (map fst normalized)"
    using dist n by (rule snapshot_loop_distinct)
  have req: "fst (snd (find_instances Python2 ec2 w ids (Some d)))
      = [DescribeInstances (ByFilters normalized)]"
    using assms(1) n
    by (auto simp: find_instances_def Let_def ansible_dict_to_boto3_filter_list_def
        dict_items_def live_entries_map_Some split: sum.splits)
  have sub1: "(normalized_key k, v) \<in> set normalized" if "(k, v) \<in> set ?fs" for k v
  proof -
    from that dist have m: "map_of ?fs k = Some v" by simp
    then have kin: "k \<in> set (dict_keys ?fs)" using dk by auto
    from e m
    have "map_of normalized (if k \<in> set (dict_keys ?fs) then normalized_key k else k) = Some v"
      by blast
    with kin have "map_of normalized (normalized_key k) = Some v" by simp
    then show ?thesis by (rule map_of_SomeD)
  qed
  have sub2: "\<exists>k. (k, v') \<in> set ?fs \<and> k' = normalized_key k"
    if "(k', v') \<in> set normalized" for k' v'
  proof -
    from that distn have m': "map_of normalized k' = Some v'" by simp
    then have "k' \<in> dom (map_of normalized)" by auto
    with dn dk obtain k where k: "k \<in> set (dict_keys ?fs)" "k' = normalized_key k" by auto
    with dk obtain v where v: "map_of ?fs k = Some v" by auto
    from e v
    have "map_of normalized (if k \<in> set (dict_keys ?fs) then normalized_key k else k) = Some v"
      by blast
    with k have "map_of normalized k' = Some v" by simp
    with m' have "v = v'" by simp
    with v have "(k, v') \<in> set ?fs" by (auto dest: map_of_SomeD)
    with k show ?thesis by blast
  qed
  have "set normalized = (\<lambda>(k, v). (normalized_key k, v)) ` set ?fs"
  proof (intro set_eqI iffI)
    fix p assume pin: "p \<in> set normalized"
    obtain k' v' where p: "p = (k', v')" by (cases p)
    from pin p have "(k', v') \<in> set normalized" by simp
    from sub2 [OF this] obtain k where "(k, v') \<in> set ?fs" "k' = normalized_key k" by blast
    then show "p \<in> (\<lambda>(k, v). (normalized_key k, v)) ` set ?fs"
      unfolding p by force
  next
    fix p assume "p \<in> (\<lambda>(k, v). (normalized_key k, v)) ` set ?fs"
    then obtain k v where "(k, v) \<in> set ?fs" "p = (normalized_key k, v)" by auto
    with sub1 show "p \<in> set normalized" by simp
  qed
  with req show ?thesis by blast
qed

text \<open>
  Claim C7, as stated, fails: with an empty identifier list and an empty filter mapping
  the function raises no validation error, under either interpreter. It sends a query
  with an empty filter list and returns what the provider answers.
\<close>

theorem find_instances_empty_filters_counterexample:
  "find_instances Python2 (accepting_client [plain_instance ''i-1'' ''running'']) ()
       (Some []) (Some (fresh_dict []))
     = (Inr [plain_instance ''i-1'' ''running''], [DescribeInstances (ByFilters [])],
        Some (fresh_dict []))
   \<and> find_instances (Python3 sample_room) (accepting_client [plain_instance ''i-1'' ''running''])
       () (Some []) (Some (fresh_dict []))
     = (Inr [plain_instance ''i-1'' ''running''], [DescribeInstances (ByFilters [])],
        Some (fresh_dict []))"
  by (simp add: find_instances_def accepting_client_def dict_keys_def dict_items_def
      fresh_dict_def ansible_dict_to_boto3_filter_list_def)

text \<open>
  Claim C7, amended. Under either interpreter: with a non-empty identifier list the
  function sends one query by these identifiers and returns its answer, whatever the
  filters are, and leaves the filters alone. Without identifiers it fails with a
  validation error when no filter mapping is given (\<^verbatim>\<open>filters is None\<close>). For a filter
  mapping that is given, the empty one included, it raises no validation error: it runs
  the loop over the keys and, when the loop returns, sends one query by the entries that
  the loop has left and returns the provider's answer; when the loop raises, it sends
  nothing and ends with that error. For a mapping whose keys all carry the prefix
  \<^verbatim>\<open>tag:\<close>, the empty mapping included, the query is by the entries as given.
\<close>

theorem find_instances_dispatch:
  "(ids \<noteq> None \<and> ids \<noteq> Some [] \<longrightarrow>
      find_instances python ec2 w ids filters =
        ((case describe_instances ec2 w (ByInstanceIds (the ids)) of
            Inl e \<Rightarrow> Inl (Uncaught e) | Inr found \<Rightarrow> Inr found),
         [DescribeInstances (ByInstanceIds (the ids))], filters))
   \<and> ((ids = None \<or> ids = Some []) \<and> filters = None \<longrightarrow>
      find_instances python ec2 w ids filters =
        (Inl (FailJson ''No filters provided when they were required''), [], None))
   \<and> ((ids = None \<or> ids = Some []) \<and> filters = Some d \<longrightarrow>
      (\<forall>msg. fst (find_instances python ec2 w ids filters) \<noteq> Inl (FailJson msg))
      \<and> fst (snd (find_instances python ec2 w ids filters)) =
          (case normalize_filter_keys python d of
             Inl e \<Rightarrow> []
           | Inr n \<Rightarrow> [DescribeInstances (ByFilters (dict_items n))])
      \<and> fst (find_instances python ec2 w ids filters) =
          (case normalize_filter_keys python d of
             Inl e \<Rightarrow> Inl e
           | Inr n \<Rightarrow>
               (case describe_instances ec2 w (ByFilters (dict_items n)) of
                  Inl e \<Rightarrow> Inl (Uncaught e) | Inr found \<Rightarrow> Inr found)))
   \<and> ((ids = None \<or> ids = Some []) \<and> filters = Some d
        \<and> (\<forall>k\<in>set (dict_keys (dict_items d)). startswith k ''tag:'') \<longrightarrow>
      fst (snd (find_instances python ec2 w ids filters))
        = [DescribeInstances (ByFilters (dict_items d))]
      \<and> fst (find_instances python ec2 w ids filters) =
          (case describe_instances ec2 w (ByFilters (dict_items d)) of
             Inl e \<Rightarrow> Inl (Uncaught e) | Inr found \<Rightarrow> Inr found))"
proof (intro conjI impI)
  assume "ids \<noteq> None \<and> ids \<noteq> Some []"
  then show "find_instances python ec2 w ids filters =
        ((case describe_instances ec2 w (ByInstanceIds (the ids)) of
            Inl e \<Rightarrow> Inl (Uncaught e) | Inr found \<Rightarrow> Inr found),
         [DescribeInstances (ByInstanceIds (the ids))], filters)"
    by (auto simp: find_instances_def split: sum.splits)
next
  assume "(ids = None \<or> ids = Some []) \<and> filters = None"
  then show "find_instances python ec2 w ids filters =
        (Inl (FailJson ''No filters provided when they were required''), [], None)"
    by (auto simp: find_instances_def)
next
  assume a: "(ids = None \<or> ids = Some []) \<and> filters = Some d"
  show "\<forall>msg. fst (find_instances python ec2 w ids filters) \<noteq> Inl (FailJson msg)"
    using a normalize_filter_keys_no_fail_json [of python d]
    by (auto simp: find_instances_def Let_def split: sum.splits)
next
  assume a: "(ids = None \<or> ids = Some []) \<and> filters = Some d"
  show "fst (snd (find_instances python ec2 w ids filters)) =
          (case normalize_filter_keys python d of
             Inl e \<Rightarrow> []
           | Inr n \<Rightarrow> [DescribeInstances (ByFilters (dict_items n))])"
    using a
    by (auto simp: find_instances_def Let_def ansible_dict_to_boto3_filter_list_def
        split: sum.splits)
next
  assume a: "(ids = None \<or> ids = Some []) \<and> filters = Some d"
  show "fst (find_instances python ec2 w ids filters) =
          (case normalize_filter_keys python d of
             Inl e \<Rightarrow> Inl e
           | Inr n \<Rightarrow>
               (case describe_instances ec2 w (ByFilters (dict_items n)) of
                  Inl e \<Rightarrow> Inl (Uncaught e) | Inr found \<Rightarrow> Inr found))"
    using a
    by (auto simp: find_instances_def Let_def ansible_dict_to_boto3_filter_list_def
        split: sum.splits)
next
  assume a: "(ids = None \<or> ids = Some []) \<and> filters = Some d
        \<and> (\<forall>k\<in>set (dict_keys (dict_items d)). startswith k ''tag:'')"
  then obtain n where n: "normalize_filter_keys python d = Inr n" "dict_items n = dict_items d"
    using normalize_filter_keys_tags [of d python] by blast
  with a show "fst (snd (find_instances python ec2 w ids filters))
        = [DescribeInstances (ByFilters (dict_items d))]"
    by (auto simp: find_instances_def Let_def ansible_dict_to_boto3_filter_list_def
        split: sum.splits)
next
  assume a: "(ids = None \<or> ids = Some []) \<and> filters = Some d
        \<and> (\<forall>k\<in>set (dict_keys (dict_items d)). startswith k ''tag:'')"
  then obtain n where n: "normalize_filter_keys python d = Inr n" "dict_items n = dict_items d"
    using normalize_filter_keys_tags [of d python] by blast
  with a show "fst (find_instances python ec2 w ids filters) =
          (case describe_instances ec2 w (ByFilters (dict_items d)) of
             Inl e \<Rightarrow> Inl (Uncaught e) | Inr found \<Rightarrow> Inr found)"
    by (auto simp: find_instances_def Let_def ansible_dict_to_boto3_filter_list_def
        split: sum.splits)
qed

theorem find_instances_dispatch_witness:
  "find_instances (Python3 sample_room) (accepting_client []) () (Some [''i-1''])
       (Some (fresh_dict default_filters))
     = (Inr [], [DescribeInstances (ByInstanceIds [''i-1''])], Some (fresh_dict default_filters))
   \<and> find_instances Python2 (accepting_client []) () (Some []) None
     = (Inl (FailJson ''No filters provided when they were required''), [], None)
   \<and> fst (snd (find_instances (Python3 sample_room) (accepting_client []) () None
                 (Some (fresh_dict tag_filters))))
     = [DescribeInstances (ByFilters tag_filters)]
   \<and> fst (snd (find_instances Python2 (accepting_client []) () None
                 (Some (fresh_dict tag_filters))))
     = [DescribeInstances (ByFilters tag_filters)]"
proof -
  have items: "dict_items (fresh_dict tag_filters) = tag_filters"
    by (simp add: dict_items_def fresh_dict_def live_entries_map_Some)
  have tags: "\<forall>k\<in>set (dict_keys (dict_items (fresh_dict tag_filters))). startswith k ''tag:''"
    by (simp only: items) (simp add: dict_keys_def tag_filters_def startswith_def)
  from find_instances_dispatch
         [of "Some [''i-1'']" "Python3 sample_room" "accepting_client []" "()"
             "Some (fresh_dict default_filters)"]
  have a: "find_instances (Python3 sample_room) (accepting_client []) () (Some [''i-1''])
       (Some (fresh_dict default_filters))
     = (Inr [], [DescribeInstances (ByInstanceIds [''i-1''])], Some (fresh_dict default_filters))"
    by (simp add: accepting_client_def)
  from find_instances_dispatch [of "Some []" Python2 "accepting_client []" "()" None]
  have b: "find_instances Python2 (accepting_client []) () (Some []) None
     = (Inl (FailJson ''No filters provided when they were required''), [], None)"
    by simp
  from find_instances_dispatch
         [of None "Python3 sample_room" "accepting_client []" "()"
             "Some (fresh_dict tag_filters)" "fresh_dict tag_filters"] tags
  have "fst (snd (find_instances (Python3 sample_room) (accepting_client []) () None
                 (Some (fresh_dict tag_filters))))
     = [DescribeInstances (ByFilters (dict_items (fresh_dict tag_filters)))]"
    by blast
  then have c: "fst (snd (find_instances (Python3 sample_room) (accepting_client []) () None
                 (Some (fresh_dict tag_filters))))
     = [DescribeInstances (ByFilters tag_filters)]"
    by (simp only: items)
  from find_instances_dispatch
         [of None Python2 "accepting_client []" "()"
             "Some (fresh_dict tag_filters)" "fresh_dict tag_filters"] tags
  have "fst (snd (find_instances Python2 (accepting_client []) () None
                 (Some (fresh_dict tag_filters))))
     = [DescribeInstances (ByFilters (dict_items (fresh_dict tag_filters)))]"
    by blast
  then have d: "fst (snd (find_instances Python2 (accepting_client []) () None
                 (Some (fresh_dict tag_filters))))
     = [DescribeInstances (ByFilters tag_filters)]"
    by (simp only: items)
  from a b c d show ?thesis by blast
qed

text \<open>
  Claim C8, at the failing inputs, under Python 3. Filters with the single key
  \<^verbatim>\<open>instance_type\<close>, in a dictionary just built: the loop raises \<^verbatim>\<open>RuntimeError\<close> and
  nothing is submitted, where the claim has the entry submitted under
  \<^verbatim>\<open>instance-type\<close>. The same happens with the filters that \<^verbatim>\<open>main\<close> builds when the
  user gives none, whose key has no underscore at all: the entry is removed and stored
  again under the same key, behind the place of the iterator. Filters with the two keys
  \<^verbatim>\<open>instance_type\<close> and \<^verbatim>\<open>instance-type\<close> make the loop raise as well; under Python 2
  one entry is submitted for them, and the value list of the other is lost.
\<close>

theorem find_instances_key_loop_failures:
  "fst (find_instances (Python3 sample_room) (accepting_client []) () None
          (Some (fresh_dict [(''instance_type'', [''t2.micro''])])))
     = Inl (RuntimeError ''dictionary keys changed during iteration'')
   \<and> fst (snd (find_instances (Python3 sample_room) (accepting_client []) () None
          (Some (fresh_dict [(''instance_type'', [''t2.micro''])]))))
     = []
   \<and> fst (find_instances (Python3 sample_room) (accepting_client []) () None
          (Some (fresh_dict default_filters)))
     = Inl (RuntimeError ''dictionary keys changed during iteration'')
   \<and> fst (snd (find_instances (Python3 sample_room) (accepting_client []) () None
          (Some (fresh_dict default_filters))))
     = []
   \<and> fst (find_instances (Python3 sample_room) (accepting_client []) () None
          (Some (fresh_dict
             [(''instance_type'', [''t2.micro'']), (''instance-type'', [''t2.small''])])))
     = Inl (RuntimeError ''dictionary changed size during iteration'')
   \<and> fst (snd (find_instances Python2 (accepting_client []) () None
          (Some (fresh_dict
             [(''instance_type'', [''t2.micro'']), (''instance-type'', [''t2.small''])]))))
     = [DescribeInstances (ByFilters [(''instance-type'', [''t2.micro''])])]"
  by code_simp

section \<open>Properties of the stop transition\<close>

text \<open>
  The loop of \<^verbatim>\<open>change_instance_state\<close> for the target \<^verbatim>\<open>STOPPED\<close>: a candidate that
  is stopping goes into \<open>unchanged\<close> and no request is sent for it; for any other candidate
  one stop request is sent.
\<close>

lemma lifecycle_call_requests:
  "acc_requests (lifecycle_call call req inst_id acc) = acc_requests acc @ [req]"
  by (simp add: lifecycle_call_def split: prod.splits sum.splits)

lemma lifecycle_call_unchanged:
  "acc_unchanged (lifecycle_call call req inst_id acc) = acc_unchanged acc"
  by (simp add: lifecycle_call_def split: prod.splits sum.splits)

lemma change_one_stopped:
  "change_one ec2 ''STOPPED'' inst acc =
     (if State_Name inst = ''stopping''
      then acc\<lparr>acc_unchanged := set_add (InstanceId inst) (acc_unchanged acc)\<rparr>
      else lifecycle_call (stop_instances ec2) (StopInstances [InstanceId inst])
             (InstanceId inst) acc)"
  by (simp add: change_one_def)

lemma change_loop_stopped_requests:
  "acc_requests (change_loop ec2 ''STOPPED'' insts acc)
     = acc_requests acc
       @ map (\<lambda>j. StopInstances [InstanceId j]) [j \<leftarrow> insts. State_Name j \<noteq> ''stopping'']"
proof (induction insts arbitrary: acc)
  case Nil
  then show ?case by simp
next
  case (Cons inst insts)
  show ?case
    by (simp only: change_loop.simps Cons.IH change_one_stopped)
       (simp add: lifecycle_call_requests)
qed

lemma set_set_add: "set (set_add x xs) = insert x (set xs)"
  by (auto simp: set_add_def)

lemma change_loop_stopped_unchanged:
  "set (acc_unchanged (change_loop ec2 ''STOPPED'' insts acc))
     = set (acc_unchanged acc) \<union> InstanceId ` {i \<in> set insts. State_Name i = ''stopping''}"
proof (induction insts arbitrary: acc)
  case Nil
  then show ?case by simp
next
  case (Cons inst insts)
  show ?case
    by (simp only: change_loop.simps Cons.IH change_one_stopped)
       (auto simp: lifecycle_call_unchanged set_set_add)
qed

text \<open>What \<^verbatim>\<open>find_instances\<close> and \<^verbatim>\<open>await_instances\<close> send.\<close>

lemma find_instances_requests:
  "q \<in> set (fst (snd (find_instances python ec2 w ids filters))) \<Longrightarrow> \<exists>x. q = DescribeInstances x"
  by (auto simp: find_instances_def Let_def split: if_splits option.splits sum.splits)

lemma await_instances_requests:
  "q \<in> set (fst (snd (await_instances ec2 params w ids state))) \<Longrightarrow>
   (\<exists>waiter delay attempts. q = WaiterWait waiter ids delay attempts) \<or> (\<exists>m. q = ModuleWarn m)"
  by (auto simp: await_instances_def Let_def
      split: if_splits option.splits prod.splits wait_result.splits)

lemma await_instances_stopped_waits:
  "wait params \<Longrightarrow>
   WaiterWait ''instance_stopped'' ids 15 (wait_timeout params div 15)
     \<in> set (fst (snd (await_instances ec2 params w ids ''STOPPED'')))"
  by (auto simp: await_instances_def Let_def state_opts_def dict_get_def
      split: prod.splits wait_result.splits)

text \<open>
  The requests and the result of \<^verbatim>\<open>change_instance_state\<close> in terms of its loop and
  its wait, once the candidates have been found.
\<close>

lemma change_instance_state_shape:
  assumes "find_instances python ec2 w None filters = (Inr instances, reqs, filters')"
  shows "let acc = change_loop ec2 desired_state instances
                     \<lparr>acc_changed = [], acc_unchanged = [], acc_world = w, acc_requests = reqs\<rparr>;
             awaited = (if acc_changed acc \<noteq> []
                        then fst (snd (await_instances ec2 params (acc_world acc)
                                         (acc_changed acc @ acc_unchanged acc) desired_state))
                        else []);
             out = change_instance_state python ec2 params w filters desired_state
         in (\<exists>tail. co_requests out = acc_requests acc @ awaited @ tail
                \<and> (\<forall>q\<in>set tail. \<exists>x. q = DescribeInstances x))
          \<and> (\<forall>changed failed found. co_result out = Inr (changed, failed, found) \<longrightarrow>
                changed = acc_changed acc)"
proof -
  let ?acc = "change_loop ec2 desired_state instances
                \<lparr>acc_changed = [], acc_unchanged = [], acc_world = w, acc_requests = reqs\<rparr>"
  let ?ids = "acc_changed ?acc @ acc_unchanged ?acc"
  let ?to_change = "remdups (map InstanceId instances)"
  obtain ae ar w' where aw:
    "(if acc_changed ?acc \<noteq> []
      then await_instances ec2 params (acc_world ?acc) ?ids desired_state
      else (None, [], acc_world ?acc)) = (ae, ar, w')"
    by (metis prod_cases3)
  have ar: "(if acc_changed ?acc \<noteq> []
             then fst (snd (await_instances ec2 params (acc_world ?acc) ?ids desired_state))
             else []) = ar"
    using aw by (auto split: if_splits)
  obtain r2 reqs2 f2 where f2: "find_instances python ec2 w' (Some ?to_change) None = (r2, reqs2, f2)"
    by (metis prod_cases3)
  have tail: "\<forall>q\<in>set reqs2. \<exists>x. q = DescribeInstances x"
    using find_instances_requests [of _ python ec2 w' "Some ?to_change" None] f2 by simp
  have out: "change_instance_state python ec2 params w filters desired_state =
     (case ae of
        Some e \<Rightarrow> \<lparr>co_result = Inl e, co_requests = acc_requests ?acc @ ar, co_world = w',
                    co_filters = filters'\<rparr>
      | None \<Rightarrow>
          (case r2 of
             Inl e \<Rightarrow> \<lparr>co_result = Inl e, co_requests = acc_requests ?acc @ ar @ reqs2,
                         co_world = w', co_filters = filters'\<rparr>
           | Inr found \<Rightarrow>
               \<lparr>co_result = Inr (acc_changed ?acc,
                    [i \<leftarrow> ?to_change. i \<notin> set (acc_changed ?acc)], found),
                co_requests = acc_requests ?acc @ ar @ reqs2, co_world = w',
                co_filters = filters'\<rparr>))"
    unfolding change_instance_state_def assms prod.case sum.case Let_def aw f2
    by (simp split: option.splits sum.splits)
  show ?thesis
    unfolding Let_def ar using tail by (cases ae; cases r2) (auto simp: out)
qed

text \<open>
  For the target \<^verbatim>\<open>STOPPED\<close>, once the candidates are found: every stop request names
  a single candidate that is not stopping, so none is sent for a candidate that is
  already stopping; and every wait that the function issues includes all candidates that
  are already stopping.
\<close>

lemma change_instance_state_stopped_requests:
  assumes "find_instances python ec2 w None filters = (Inr instances, reqs, filters')"
  shows "let out = change_instance_state python ec2 params w filters ''STOPPED'' in
           (\<forall>ids. StopInstances ids \<in> set (co_requests out) \<longrightarrow>
              (\<exists>j\<in>set instances. ids = [InstanceId j] \<and> State_Name j \<noteq> ''stopping''))
         \<and> (\<forall>waiter ids delay attempts.
              WaiterWait waiter ids delay attempts \<in> set (co_requests out) \<longrightarrow>
              (\<forall>i\<in>set instances. State_Name i = ''stopping'' \<longrightarrow> InstanceId i \<in> set ids))"
proof -
  let ?acc = "change_loop ec2 ''STOPPED'' instances
                \<lparr>acc_changed = [], acc_unchanged = [], acc_world = w, acc_requests = reqs\<rparr>"
  let ?ids = "acc_changed ?acc @ acc_unchanged ?acc"
  let ?awaited = "if acc_changed ?acc \<noteq> []
                  then fst (snd (await_instances ec2 params (acc_world ?acc) ?ids ''STOPPED''))
                  else []"
  let ?out = "change_instance_state python ec2 params w filters ''STOPPED''"
  from change_instance_state_shape [OF assms, of "''STOPPED''" params, unfolded Let_def]
  obtain tail where
    rq: "co_requests ?out = acc_requests ?acc @ ?awaited @ tail"
    and tl: "\<forall>q\<in>set tail. \<exists>x. q = DescribeInstances x"
    by blast
  have found_reqs: "\<forall>q\<in>set reqs. \<exists>x. q = DescribeInstances x"
    using find_instances_requests [of _ python ec2 w None filters] assms by simp
  have loop: "acc_requests ?acc
      = reqs @ map (\<lambda>j. StopInstances [InstanceId j]) [j \<leftarrow> instances. State_Name j \<noteq> ''stopping'']"
    by (simp add: change_loop_stopped_requests)
  have unch: "set (acc_unchanged ?acc)
      = InstanceId ` {i \<in> set instances. State_Name i = ''stopping''}"
    by (simp add: change_loop_stopped_unchanged)
  have aw: "(\<exists>waiter delay attempts. q = WaiterWait waiter ?ids delay attempts) \<or> (\<exists>m. q = ModuleWarn m)"
    if "q \<in> set ?awaited" for q
    using that await_instances_requests [of q ec2 params "acc_world ?acc" ?ids "''STOPPED''"]
    by (auto split: if_splits)
  have stops: "\<exists>j\<in>set instances. ids = [InstanceId j] \<and> State_Name j \<noteq> ''stopping''"
    if "StopInstances ids \<in> set (co_requests ?out)" for ids
  proof -
    from that rq have "StopInstances ids \<in> set (acc_requests ?acc)
        \<or> StopInstances ids \<in> set ?awaited \<or> StopInstances ids \<in> set tail"
      by auto
    then show ?thesis
    proof (elim disjE)
      assume "StopInstances ids \<in> set (acc_requests ?acc)"
      with loop found_reqs show ?thesis by auto
    next
      assume "StopInstances ids \<in> set ?awaited"
      from aw [OF this] show ?thesis by auto
    next
      assume "StopInstances ids \<in> set tail"
      with tl show ?thesis by auto
    qed
  qed
  have waits: "InstanceId i \<in> set ids"
    if "WaiterWait waiter ids delay attempts \<in> set (co_requests ?out)"
      and "i \<in> set instances" and "State_Name i = ''stopping''"
    for waiter ids delay attempts i
  proof -
    from that(1) rq have "WaiterWait waiter ids delay attempts \<in> set (acc_requests ?acc)
        \<or> WaiterWait waiter ids delay attempts \<in> set ?awaited
        \<or> WaiterWait waiter ids delay attempts \<in> set tail"
      by auto
    then show ?thesis
    proof (elim disjE)
      assume "WaiterWait waiter ids delay attempts \<in> set (acc_requests ?acc)"
      with loop found_reqs show ?thesis by auto
    next
      assume "WaiterWait waiter ids delay attempts \<in> set ?awaited"
      from aw [OF this] have "ids = ?ids" by auto
      with unch that(2,3) show ?thesis by auto
    next
      assume "WaiterWait waiter ids delay attempts \<in> set tail"
      with tl show ?thesis by auto
    qed
  qed
  from stops waits show ?thesis unfolding Let_def by blast
qed

text \<open>
  Two candidates, one running and one stopping, and a provider that acknowledges the stop
  call: one stop request, for the running instance, and one wait, for both. The instance
  that was stopping is nevertheless returned in the list of failures.
\<close>

lemma change_instance_state_stopping_example:
  "co_requests (change_instance_state Python2
       (accepting_client [plain_instance ''i-1'' ''running'', plain_instance ''i-2'' ''stopping''])
       default_wait_params () (Some (fresh_dict tag_filters)) ''STOPPED'')
     = [DescribeInstances (ByFilters tag_filters), StopInstances [''i-1''],
        WaiterWait ''instance_stopped'' [''i-1'', ''i-2''] 15 40,
        DescribeInstances (ByInstanceIds [''i-1'', ''i-2''])]
   \<and> co_result (change_instance_state Python2
       (accepting_client [plain_instance ''i-1'' ''running'', plain_instance ''i-2'' ''stopping''])
       default_wait_params () (Some (fresh_dict tag_filters)) ''STOPPED'')
     = Inr ([''i-1''], [''i-2''],
            [plain_instance ''i-1'' ''running'', plain_instance ''i-2'' ''stopping''])"
  by code_simp

text \<open>
  Claim C1, at the failing input. The state asked for is \<^verbatim>\<open>stopped\<close> and the one
  instance that the filters match is already stopping. No stop request is sent for it,
  and it goes into \<open>unchanged\<close>. But the failures are computed as
  \<^verbatim>\<open>to_change - changed\<close>, from which \<open>unchanged\<close> is not taken away: the instance is
  returned in the list of failures, and the module ends with \<^verbatim>\<open>fail_json\<close>,
  ``Unable to stop instances''. This is so under either interpreter with filters by a
  tag, and under Python 2 with the filters that \<^verbatim>\<open>main\<close> builds for this state, which
  select the stopping instances on purpose.
\<close>

theorem ensure_instance_state_stopping_reported_failed:
  "co_result (change_instance_state Python2
                (accepting_client [plain_instance ''i-1'' ''stopping''])
                default_wait_params () (Some (fresh_dict tag_filters)) ''STOPPED'')
     = Inr ([], [''i-1''], [plain_instance ''i-1'' ''stopping''])
   \<and> ensure_instance_state Python2 (accepting_client [plain_instance ''i-1'' ''stopping''])
       default_wait_params () (Some (fresh_dict tag_filters)) ''stopped''
     = (FailJsonLists ''Unable to stop instances'' (''stop_success'', [])
          (''stop_failed'', [''i-1'']),
        [DescribeInstances (ByFilters tag_filters), DescribeInstances (ByInstanceIds [''i-1''])])
   \<and> co_result (change_instance_state (Python3 sample_room)
                (accepting_client [plain_instance ''i-1'' ''stopping''])
                default_wait_params () (Some (fresh_dict tag_filters)) ''STOPPED'')
     = Inr ([], [''i-1''], [plain_instance ''i-1'' ''stopping''])
   \<and> ensure_instance_state (Python3 sample_room)
       (accepting_client [plain_instance ''i-1'' ''stopping''])
       default_wait_params () (Some (fresh_dict tag_filters)) ''stopped''
     = (FailJsonLists ''Unable to stop instances'' (''stop_success'', [])
          (''stop_failed'', [''i-1'']),
        [DescribeInstances (ByFilters tag_filters), DescribeInstances (ByInstanceIds [''i-1''])])
   \<and> fst (ensure_instance_state Python2 (accepting_client [plain_instance ''i-1'' ''stopping''])
            default_wait_params () (Some (fresh_dict stopped_filters)) ''stopped'')
     = FailJsonLists ''Unable to stop instances'' (''stop_success'', [])
         (''stop_failed'', [''i-1''])"
  by code_simp

section \<open>Properties of the state transitions\<close>

text \<open>
  Claim C9, at the failing input. One candidate, running; the provider rejects the stop
  call and acknowledges the start call. The stop phase returns the instance in its failed
  list. The restart as a whole ends with \<^verbatim>\<open>exit_json\<close>, the instance among the
  successes and an empty list of failures: the triple of the stop phase is overwritten by
  the triple of the start phase before anything reads it. This is so under Python 2 with
  the filters that \<^verbatim>\<open>main\<close> builds, and under either interpreter with filters by a tag,
  which the loop over the keys leaves alone.
\<close>

theorem ensure_instance_state_restart_drops_stop_failure:
  "co_result (change_instance_state Python2
                (stop_rejecting_client [plain_instance ''i-1'' ''running''])
                default_wait_params () (Some (fresh_dict default_filters)) ''STOPPED'')
     = Inr ([], [''i-1''], [plain_instance ''i-1'' ''running''])
   \<and> fst (ensure_instance_state Python2
            (stop_rejecting_client [plain_instance ''i-1'' ''running''])
            default_wait_params () (Some (fresh_dict default_filters)) ''restarted'')
     = ExitJson ''Instances restarted'' (''reboot_success'', [''i-1'']) True
         (''reboot_failed'', []) [(plain_instance ''i-1'' ''running'', [])]
   \<and> co_result (change_instance_state Python2
                (stop_rejecting_client [plain_instance ''i-1'' ''running''])
                default_wait_params () (Some (fresh_dict tag_filters)) ''STOPPED'')
     = Inr ([], [''i-1''], [plain_instance ''i-1'' ''running''])
   \<and> fst (ensure_instance_state Python2
            (stop_rejecting_client [plain_instance ''i-1'' ''running''])
            default_wait_params () (Some (fresh_dict tag_filters)) ''restarted'')
     = ExitJson ''Instances restarted'' (''reboot_success'', [''i-1'']) True
         (''reboot_failed'', []) [(plain_instance ''i-1'' ''running'', [])]
   \<and> co_result (change_instance_state (Python3 sample_room)
                (stop_rejecting_client [plain_instance ''i-1'' ''running''])
                default_wait_params () (Some (fresh_dict tag_filters)) ''STOPPED'')
     = Inr ([], [''i-1''], [plain_instance ''i-1'' ''running''])
   \<and> fst (ensure_instance_state (Python3 sample_room)
            (stop_rejecting_client [plain_instance ''i-1'' ''running''])
            default_wait_params () (Some (fresh_dict tag_filters)) ''restarted'')
     = ExitJson ''Instances restarted'' (''reboot_success'', [''i-1'']) True
         (''reboot_failed'', []) [(plain_instance ''i-1'' ''running'', [])]"
  by code_simp

end
